theory Spec2Isabelle
  imports Complex_Main "HOL-Library.Multiset" "HOL-Library.Sublist"
begin

section \<open>The day view of my-time-keeper (src/components/views/dailyView.tsx)\<close>

text \<open>
  The development embeds the logic of the \<^verbatim>\<open>DailyView\<close> component: the layout
  arithmetic of the timeline, the two label formatters, the grouping by priority, the
  scroll-to-now computation, and the two timers (the one-minute interval that moves the
  current-time marker and the two-second timeout that ends a highlight).

  Conventions of the embedding.
  \<^item> A JavaScript number is \<open>NaN\<close> or an exact rational \<open>Num q\<close>. The rounding of IEEE
    doubles is not modelled; \<open>NaN\<close> propagates through arithmetic as in JavaScript.
  \<^item> The host is a parameter, in two parts. Its clock is a function from an instant to what
    \<^verbatim>\<open>new Date()\<close> reads at that instant (type \<open>clock\<close>). Its reading of a date-time string,
    \<^verbatim>\<open>new Date(s)\<close>, is a function from strings to dates (type \<open>host\<close>): what a string is read
    as depends on the host's time zone and on the formats the host accepts.
  \<^item> Time is counted in milliseconds, and a timer fires at the instant it is due.
\<close>

subsection \<open>Numbers and their printing\<close>

datatype number = NaN | Num rat

fun n_arith :: "(rat \<Rightarrow> rat \<Rightarrow> rat) \<Rightarrow> number \<Rightarrow> number \<Rightarrow> number" where
  "n_arith f (Num a) (Num b) = Num (f a b)"
| "n_arith f _ _ = NaN"

text \<open>The only divisor in the source is the constant 1440, so \<open>n_div\<close> is never applied to a zero divisor.\<close>

definition n_mul :: "number \<Rightarrow> number \<Rightarrow> number" where
  "n_mul = n_arith (\<lambda>a b. a * b)"

definition n_div :: "number \<Rightarrow> number \<Rightarrow> number" where
  "n_div = n_arith (\<lambda>a b. a / b)"

definition n_sub :: "number \<Rightarrow> number \<Rightarrow> number" where
  "n_sub = n_arith (\<lambda>a b. a - b)"

definition n_add :: "number \<Rightarrow> number \<Rightarrow> number" where
  "n_add = n_arith (\<lambda>a b. a + b)"

text \<open>\<^verbatim>\<open>a < b\<close> on numbers: false as soon as one side is \<open>NaN\<close>.\<close>

fun n_less :: "number \<Rightarrow> number \<Rightarrow> bool" where
  "n_less (Num a) (Num b) = (a < b)"
| "n_less _ _ = False"

definition digit_char :: "nat \<Rightarrow> char" where
  "digit_char d = ''0123456789'' ! d"

fun nat_digits :: "nat \<Rightarrow> string" where
  "nat_digits n = (if n < 10 then [digit_char n] else nat_digits (n div 10) @ [digit_char (n mod 10)])"

definition int_to_string :: "int \<Rightarrow> string" where
  "int_to_string i = (if i < 0 then CHR ''-'' # nat_digits (nat (- i)) else nat_digits (nat i))"

text \<open>
  \<^verbatim>\<open>String(x)\<close>, as a template literal and a property access apply it. An integer of
  magnitude below \<open>2\<^sup>5\<^sup>3\<close> is printed with all its decimal digits. The component prints
  hours and minutes only, so the string of any other number (the decimal expansion of a
  number that is not an integer, the digits of a larger one) is left unspecified.
\<close>

definition number_to_string :: "number \<Rightarrow> string" where
  "number_to_string x =
     (case x of NaN \<Rightarrow> ''NaN''
      | Num q \<Rightarrow> if of_int \<lfloor>q\<rfloor> = q \<and> \<bar>q\<bar> < 9007199254740992 then int_to_string \<lfloor>q\<rfloor>
                 else undefined)"

text \<open>\<^verbatim>\<open>a % b\<close>: the remainder of the division truncated towards zero; \<open>NaN\<close> for a zero divisor.\<close>

definition rat_trunc :: "rat \<Rightarrow> int" where
  "rat_trunc q = (if q < 0 then \<lceil>q\<rceil> else \<lfloor>q\<rfloor>)"

fun n_rem :: "number \<Rightarrow> number \<Rightarrow> number" where
  "n_rem (Num a) (Num b) = (if b = 0 then NaN else Num (a - b * of_int (rat_trunc (a / b))))"
| "n_rem _ _ = NaN"

text \<open>Truthiness of a number: \<open>0\<close> and \<open>NaN\<close> are falsy.\<close>

fun truthy :: "number \<Rightarrow> bool" where
  "truthy NaN = False"
| "truthy (Num q) = (q \<noteq> 0)"

text \<open>\<^verbatim>\<open>s.padStart(2, '0')\<close>\<close>

definition padStart2 :: "string \<Rightarrow> string" where
  "padStart2 s = replicate (2 - length s) (CHR ''0'') @ s"

subsection \<open>Dates\<close>

text \<open>
  A \<^verbatim>\<open>Date\<close> object as the component reads it: invalid, or a local date and time of day
  (what \<^verbatim>\<open>getHours()\<close>, \<^verbatim>\<open>getMinutes()\<close> and the like give back).
\<close>

datatype js_date = InvalidDate
  | LocalTime (dYear: nat) (dMonth: nat) (dDay: nat) (dHours: nat) (dMinutes: nat) (dSeconds: nat) (dMillis: nat)

definition is_digit :: "char \<Rightarrow> bool" where
  "is_digit c = (c \<in> set ''0123456789'')"

definition digit_val :: "char \<Rightarrow> nat" where
  "digit_val c = of_char c - 48"

definition num_of :: "string \<Rightarrow> nat option" where
  "num_of s = (if s \<noteq> [] \<and> list_all is_digit s
               then Some (foldl (\<lambda>acc c. 10 * acc + digit_val c) 0 s) else None)"

definition leap_year :: "nat \<Rightarrow> bool" where
  "leap_year y = (y mod 4 = 0 \<and> (y mod 100 \<noteq> 0 \<or> y mod 400 = 0))"

definition days_in_month :: "nat \<Rightarrow> nat \<Rightarrow> nat" where
  "days_in_month y m =
     (if m = 2 then (if leap_year y then 29 else 28)
      else if m = 4 \<or> m = 6 \<or> m = 9 \<or> m = 11 then 30 else 31)"

definition parse_date :: "string \<Rightarrow> (nat \<times> nat \<times> nat) option" where
  "parse_date s =
     (if length s = 10 \<and> s ! 4 = CHR ''-'' \<and> s ! 7 = CHR ''-''
      then (case (num_of (take 4 s), num_of (take 2 (drop 5 s)), num_of (drop 8 s)) of
              (Some y, Some m, Some d) \<Rightarrow>
                 if 1 \<le> m \<and> m \<le> 12 \<and> 1 \<le> d \<and> d \<le> days_in_month y m then Some (y, m, d) else None
            | _ \<Rightarrow> None)
      else None)"

definition parse_hm :: "string \<Rightarrow> (nat \<times> nat) option" where
  "parse_hm s =
     (if length s = 5 \<and> s ! 2 = CHR '':''
      then (case (num_of (take 2 s), num_of (drop 3 s)) of
              (Some h, Some m) \<Rightarrow> if h \<le> 24 \<and> m < 60 then Some (h, m) else None
            | _ \<Rightarrow> None)
      else None)"

definition parse_sec :: "string \<Rightarrow> (nat \<times> nat) option" where
  "parse_sec s =
     (if s = [] then Some (0, 0)
      else if length s = 3 \<and> s ! 0 = CHR '':''
      then (case num_of (drop 1 s) of
              Some sec \<Rightarrow> if sec < 60 then Some (sec, 0) else None
            | None \<Rightarrow> None)
      else if length s = 7 \<and> s ! 0 = CHR '':'' \<and> s ! 3 = CHR ''.''
      then (case (num_of (take 2 (drop 1 s)), num_of (drop 4 s)) of
              (Some sec, Some ms) \<Rightarrow> if sec < 60 then Some (sec, ms) else None
            | _ \<Rightarrow> None)
      else None)"

definition next_day :: "nat \<times> nat \<times> nat \<Rightarrow> nat \<times> nat \<times> nat" where
  "next_day ymd =
     (case ymd of (y, mo, d) \<Rightarrow>
        if d < days_in_month y mo then (y, mo, d + 1)
        else if mo < 12 then (y, mo + 1, 1) else (y + 1, 1, 1))"

text \<open>
  A host for the examples, \<open>plain_host\<close>: it is in a time zone without transitions, and it
  reads the local date-time forms of the ECMAScript date-time string format,
  \<^verbatim>\<open>YYYY-MM-DDTHH:mm\<close>, \<^verbatim>\<open>YYYY-MM-DDTHH:mm:ss\<close> and \<^verbatim>\<open>YYYY-MM-DDTHH:mm:ss.sss\<close>, as the local
  time written. The hour runs from 00 to 24: \<^verbatim>\<open>T24:00\<close> is the midnight that ends the day
  written, and is read as 00:00 of the next day. What this host makes of any other string
  is left unspecified; the examples give it none.
\<close>

definition plain_host :: "string \<Rightarrow> js_date" where
  "plain_host s =
     (if 16 \<le> length s \<and> s ! 10 = CHR ''T''
      then (case (parse_date (take 10 s), parse_hm (take 5 (drop 11 s)), parse_sec (drop 16 s)) of
              (Some (y, mo, d), Some (h, mi), Some (sec, ms)) \<Rightarrow>
                 if h < 24 then LocalTime y mo d h mi sec ms
                 else if mi = 0 \<and> sec = 0 \<and> ms = 0
                 then (case next_day (y, mo, d) of (y', mo', d') \<Rightarrow> LocalTime y' mo' d' 0 0 0 0)
                 else undefined
            | _ \<Rightarrow> undefined)
      else undefined)"

text \<open>
  \<^verbatim>\<open>new Date(s)\<close> on a host. The host's reading is a parameter: a host in another time zone
  reads a local time that a transition of its zone skips as a later one, reads a string
  with a UTC offset or without a time as the local time of that instant, and may accept
  formats of its own. A \<^verbatim>\<open>Date\<close> holds a date of the calendar and a time of day below 24:00;
  a reading outside these ranges is no date.
\<close>

type_synonym host = "string \<Rightarrow> js_date"

definition newDate :: "host \<Rightarrow> string \<Rightarrow> js_date" where
  "newDate host s =
     (case host s of
        InvalidDate \<Rightarrow> InvalidDate
      | LocalTime y mo d h mi sec ms \<Rightarrow>
          if 1 \<le> mo \<and> mo \<le> 12 \<and> 1 \<le> d \<and> d \<le> days_in_month y mo \<and>
             h < 24 \<and> mi < 60 \<and> sec < 60 \<and> ms < 1000
          then LocalTime y mo d h mi sec ms else InvalidDate)"

text \<open>\<^verbatim>\<open>getHours()\<close> and \<^verbatim>\<open>getMinutes()\<close>: \<open>NaN\<close> on an invalid date.\<close>

fun getHours :: "js_date \<Rightarrow> number" where
  "getHours InvalidDate = NaN"
| "getHours (LocalTime y mo d h mi sec ms) = Num (of_nat h)"

fun getMinutes :: "js_date \<Rightarrow> number" where
  "getMinutes InvalidDate = NaN"
| "getMinutes (LocalTime y mo d h mi sec ms) = Num (of_nat mi)"

text \<open>
  The order of two dates, through a key that grows with the local date and time read
  back (it is not the time value of the \<^verbatim>\<open>Date\<close>), and the calendar day a date falls on.
  Among the dates a host reads from strings the order of the local times read back is
  the order of the instants.
\<close>

fun instant_key :: "js_date \<Rightarrow> nat option" where
  "instant_key InvalidDate = None"
| "instant_key (LocalTime y mo d h mi sec ms) =
     Some ((((y * 12 + (mo - 1)) * 31 + (d - 1)) * 1440 + (h * 60 + mi)) * 60000 + (sec * 1000 + ms))"

definition before :: "js_date \<Rightarrow> js_date \<Rightarrow> bool" where
  "before a b = (case (instant_key a, instant_key b) of (Some x, Some y) \<Rightarrow> x < y | _ \<Rightarrow> False)"

definition on_day :: "string \<Rightarrow> js_date \<Rightarrow> bool" where
  "on_day day a = (case (parse_date day, a) of
                     (Some (y, mo, d), LocalTime y' mo' d' h mi sec ms) \<Rightarrow> y = y' \<and> mo = mo' \<and> d = d'
                   | _ \<Rightarrow> False)"

subsection \<open>formatHourLabel, formatTime, formatTimeRange\<close>

text \<open>
  \<^verbatim>\<open>
  function formatHourLabel(hour24: number): string {
      const ampm = hour24 < 12 ? 'AM' : 'PM';
      let hour = hour24 % 12;
      if (hour === 0) hour = 12;
      return `${hour}${ampm}`;
  }
  \<close>
\<close>

definition formatHourLabel :: "number \<Rightarrow> string" where
  "formatHourLabel hour24 =
     (let ampm = (if n_less hour24 (Num 12) then ''AM'' else ''PM'');
          hour = n_rem hour24 (Num 12);
          hour = (if hour = Num 0 then Num 12 else hour)
      in number_to_string hour @ ampm)"

text \<open>
  \<^verbatim>\<open>
  function formatTime(dateObj: Date): string {
      const hours = dateObj.getHours();
      const minutes = dateObj.getMinutes().toString().padStart(2, '0');
      const ampm = hours < 12 ? 'AM' : 'PM';
      const hour12 = hours % 12 || 12;
      return `${hour12}:${minutes} ${ampm}`;
  }
  \<close>
\<close>

definition formatTime :: "js_date \<Rightarrow> string" where
  "formatTime dateObj =
     (let hours = getHours dateObj;
          minutes = padStart2 (number_to_string (getMinutes dateObj));
          ampm = (if n_less hours (Num 12) then ''AM'' else ''PM'');
          hour12 = (let r = n_rem hours (Num 12) in if truthy r then r else Num 12)
      in number_to_string hour12 @ '':'' @ minutes @ '' '' @ ampm)"

text \<open>
  \<^verbatim>\<open>
  function formatTimeRange(startIso: string, endIso: string): string {
      const start = new Date(startIso);
      const end = new Date(endIso);
      return `${formatTime(start)} - ${formatTime(end)}`;
  }
  \<close>
\<close>

definition formatTimeRange :: "host \<Rightarrow> string \<Rightarrow> string \<Rightarrow> string" where
  "formatTimeRange host startIso endIso =
     (let start = newDate host startIso; end = newDate host endIso
      in formatTime start @ '' - '' @ formatTime end)"

subsection \<open>Events and the timeline blocks\<close>

text \<open>
  \<^verbatim>\<open>id: string | number\<close> and \<^verbatim>\<open>priorityLevel: 1 | 2 | 3\<close>. A numeric identifier is a
  number other than \<open>NaN\<close> and the infinities. \<open>toKey\<close> is the property key under which an
  identifier indexes the object \<^verbatim>\<open>eventRefs.current\<close>, the string of the number: the
  number \<open>1\<close> and the string \<^verbatim>\<open>"1"\<close> name the same property. The key of a number that
  \<open>number_to_string\<close> leaves unspecified is unspecified.
\<close>

datatype event_id = IdNum rat | IdStr string

datatype priority = Level1 | Level2 | Level3

record DailyEvent =
  evt_id :: event_id
  title :: string
  description :: "string option"
  start :: string
  evt_end :: string
  color :: "string option"
  priorityLevel :: priority

fun toKey :: "event_id \<Rightarrow> string" where
  "toKey (IdNum n) = number_to_string (Num n)"
| "toKey (IdStr s) = s"

text \<open>
  \<^verbatim>\<open>
  const getMinutesOfDay = (isoString: string): number => {
      const dateObj = new Date(isoString);
      return dateObj.getHours() * 60 + dateObj.getMinutes();
  };
  \<close>
\<close>

definition getMinutesOfDay :: "host \<Rightarrow> string \<Rightarrow> number" where
  "getMinutesOfDay host isoString =
     (let dateObj = newDate host isoString
      in n_add (n_mul (getHours dateObj) (Num 60)) (getMinutes dateObj))"

text \<open>
  The \<^verbatim>\<open>li\<close> element that \<^verbatim>\<open>events.map\<close> renders for one event: its key, the three
  entries of its style (\<open>top\<close> and \<open>height\<close> as the number before the percent sign), and
  its texts. \<^verbatim>\<open>event.color || '#DBEAFE'\<close> falls back on an absent and on an empty colour,
  and \<^verbatim>\<open>event.description && ...\<close> shows no description when it is absent or empty.
\<close>

record block =
  block_key :: event_id
  style_top :: number
  style_height :: number
  style_backgroundColor :: string
  block_title :: string
  block_description :: "string option"
  block_time :: string

definition renderEvent :: "host \<Rightarrow> DailyEvent \<Rightarrow> block" where
  "renderEvent host event =
     (let startMinutes = getMinutesOfDay host (start event);
          endMinutes = getMinutesOfDay host (evt_end event);
          totalDayMinutes = Num 1440;
          startPct = n_mul (n_div startMinutes totalDayMinutes) (Num 100);
          endPct = n_mul (n_div endMinutes totalDayMinutes) (Num 100)
      in \<lparr> block_key = evt_id event,
           style_top = startPct,
           style_height = n_sub endPct startPct,
           style_backgroundColor =
             (case color event of None \<Rightarrow> ''#DBEAFE'' | Some c \<Rightarrow> if c = [] then ''#DBEAFE'' else c),
           block_title = title event,
           block_description =
             (case description event of None \<Rightarrow> None | Some s \<Rightarrow> if s = [] then None else Some s),
           block_time = formatTimeRange host (start event) (evt_end event) \<rparr>)"

definition timeline :: "host \<Rightarrow> DailyEvent list \<Rightarrow> block list" where
  "timeline host events = map (renderEvent host) events"

subsection \<open>Grouping by priority\<close>

text \<open>
  \<^verbatim>\<open>
  const priorityMap = { 1: [] as DailyEvent[], 2: [] as DailyEvent[], 3: [] as DailyEvent[] };
  events.forEach((evt) => {
      priorityMap[evt.priorityLevel].push(evt);
  });
  \<close>
  The object with the three keys is a record of three lists; \<^verbatim>\<open>forEach\<close> is a fold from
  the left.
\<close>

record priority_map =
  bucket1 :: "DailyEvent list"
  bucket2 :: "DailyEvent list"
  bucket3 :: "DailyEvent list"

definition push_evt :: "priority_map \<Rightarrow> DailyEvent \<Rightarrow> priority_map" where
  "push_evt pm evt =
     (case priorityLevel evt of
        Level1 \<Rightarrow> pm\<lparr>bucket1 := bucket1 pm @ [evt]\<rparr>
      | Level2 \<Rightarrow> pm\<lparr>bucket2 := bucket2 pm @ [evt]\<rparr>
      | Level3 \<Rightarrow> pm\<lparr>bucket3 := bucket3 pm @ [evt]\<rparr>)"

definition priorityMap :: "DailyEvent list \<Rightarrow> priority_map" where
  "priorityMap events = foldl push_evt \<lparr>bucket1 = [], bucket2 = [], bucket3 = []\<rparr> events"

fun bucket :: "priority_map \<Rightarrow> priority \<Rightarrow> DailyEvent list" where
  "bucket pm Level1 = bucket1 pm"
| "bucket pm Level2 = bucket2 pm"
| "bucket pm Level3 = bucket3 pm"

subsection \<open>The mounted component\<close>

text \<open>
  What \<^verbatim>\<open>new Date()\<close> gives at an instant: the date of \<^verbatim>\<open>toISOString().split('T')[0]\<close>
  (the calendar date in UTC), and the local \<^verbatim>\<open>getHours()\<close> and \<^verbatim>\<open>getMinutes()\<close>. The
  component does not read the local calendar date; it is the date of the day for the
  user, the real current date, and \<open>localDate\<close> records it in the same format.
  The host's clock maps an instant, in milliseconds, to its reading.
\<close>

record reading =
  isoDate :: string
  localDate :: string
  nowHours :: nat
  nowMinutes :: nat

type_synonym clock = "nat \<Rightarrow> reading"

text \<open>The scroll container, as far as \<^verbatim>\<open>scrollToNow\<close> reads and writes it.\<close>

record container =
  scrollHeight :: int
  clientHeight :: int
  scrollTop :: number

text \<open>
  The state of a mounted \<^verbatim>\<open>DailyView\<close>. The \<^verbatim>\<open>li\<close> element of the event at index \<open>i\<close>
  of \<^verbatim>\<open>events\<close> is the element \<open>i\<close>.
  \<^item> \<open>nowFraction\<close>: the state of \<^verbatim>\<open>useState\<close>; \<open>isToday\<close>: its value at the last render,
    which the rendered output, the effect and \<^verbatim>\<open>scrollToNow\<close> close over.
  \<^item> \<open>intervalId\<close>: the instant at which the \<^verbatim>\<open>setInterval\<close> timer fires next, \<open>None\<close>
    when no interval is set.
  \<^item> \<open>scrollContainerRef\<close> and \<open>eventRefs\<close>: the two refs.
  \<^item> \<open>classList\<close>: the class tokens of each \<^verbatim>\<open>li\<close> element; \<open>scrolledIntoView\<close>: the
    elements on which \<^verbatim>\<open>scrollIntoView\<close> was called, in order.
  \<^item> \<open>timeouts\<close>: the pending \<^verbatim>\<open>setTimeout\<close> callbacks, each with the instant it is due
    and the element whose highlight it removes.
  \<^item> \<open>uncaught\<close>: the exceptions that event handlers have thrown, in order. An exception
    ends the handler where it is thrown; the component stays mounted.
  \<^item> \<open>now\<close>: the current instant.
\<close>

datatype js_error = TypeError

record view =
  date :: string
  events :: "DailyEvent list"
  nowFraction :: number
  isToday :: bool
  intervalId :: "nat option"
  scrollContainerRef :: "container option"
  eventRefs :: "string \<rightharpoonup> nat"
  classList :: "nat \<Rightarrow> string set"
  scrolledIntoView :: "nat list"
  timeouts :: "(nat \<times> nat) list"
  uncaught :: "js_error list"
  now :: nat

text \<open>
  \<^verbatim>\<open>
  function computeNowFraction(): number {
      const now = new Date();
      const minutesSinceMidnight = now.getHours() * 60 + now.getMinutes();
      return minutesSinceMidnight / 1440;
  }
  \<close>
\<close>

definition computeNowFraction :: "reading \<Rightarrow> number" where
  "computeNowFraction r =
     (let minutesSinceMidnight = Num (of_nat (nowHours r * 60 + nowMinutes r))
      in n_div minutesSinceMidnight (Num 1440))"

text \<open>
  \<^verbatim>\<open>
  const scrollToNow = useCallback(() => {
      if (!scrollContainerRef.current || !isToday) return;
      const now = new Date();
      const minutesSinceMidnight = now.getHours() * 60 + now.getMinutes();
      const container = scrollContainerRef.current;
      const maxScroll = container.scrollHeight - container.clientHeight;
      const scrollPosition = (minutesSinceMidnight / 1440) * maxScroll;
      container.scrollTop = Math.max(0, Math.min(scrollPosition, maxScroll));
  }, [isToday, scrollContainerRef]);
  \<close>
\<close>

definition scrollToNow :: "reading \<Rightarrow> view \<Rightarrow> view" where
  "scrollToNow r v =
     (case scrollContainerRef v of
        None \<Rightarrow> v
      | Some container \<Rightarrow>
          if \<not> isToday v then v
          else
            let minutesSinceMidnight = of_nat (nowHours r * 60 + nowMinutes r);
                maxScroll = of_int (scrollHeight container - clientHeight container);
                scrollPosition = (minutesSinceMidnight / 1440) * maxScroll
            in v\<lparr>scrollContainerRef :=
                   Some (container\<lparr>scrollTop := Num (max 0 (min scrollPosition maxScroll))\<rparr>)\<rparr>)"

text \<open>
  The ref callbacks of the timeline, run in the order of the list:
  \<^verbatim>\<open>ref={(el) => { if (el) { eventRefs.current[event.id] = el; } }}\<close>
  The field \<open>eventRefs\<close> holds the own properties of the object. (An assignment to the key
  \<^verbatim>\<open>__proto__\<close> would replace the prototype of the object instead; identifiers are taken
  to be other than this one.)
\<close>

fun attach_refs :: "nat \<Rightarrow> DailyEvent list \<Rightarrow> (string \<rightharpoonup> nat) \<Rightarrow> (string \<rightharpoonup> nat)" where
  "attach_refs i [] refs = refs"
| "attach_refs i (event # rest) refs = attach_refs (Suc i) rest (refs(toKey (evt_id event) \<mapsto> i))"

text \<open>The tokens of the \<^verbatim>\<open>className\<close> of a timeline \<^verbatim>\<open>li\<close>.\<close>

definition li_className :: "string set" where
  "li_className = {''absolute'', ''left-14'', ''right-2'', ''flex'', ''flex-col'', ''overflow-hidden'',
                   ''rounded'', ''p-2'', ''text-xs'', ''leading-5'', ''hover:opacity-90''}"

text \<open>
  Mounting at the instant \<open>t\<close>: the first render (the initial state and \<open>isToday\<close>), the
  refs, then the effect, which scrolls to now and sets the interval when it is today.
  \<^verbatim>\<open>
  const [nowFraction, setNowFraction] = useState(() => computeNowFraction());
  const isToday = date === new Date().toISOString().split('T')[0];
  useEffect(() => {
      if (isToday) { scrollToNow(); }
      let intervalId: NodeJS.Timeout | null = null;
      if (isToday) {
          intervalId = setInterval(() => { setNowFraction(computeNowFraction()); }, 60_000);
      }
      return () => { if (intervalId) { clearInterval(intervalId); } };
  }, [isToday, scrollToNow]);
  \<close>
\<close>

definition mount :: "clock \<Rightarrow> nat \<Rightarrow> string \<Rightarrow> DailyEvent list \<Rightarrow> container \<Rightarrow> view" where
  "mount clk t d es c =
     (let rendered = \<lparr> date = d, events = es,
                        nowFraction = computeNowFraction (clk t),
                        isToday = (d = isoDate (clk t)),
                        intervalId = None,
                        scrollContainerRef = Some c,
                        eventRefs = attach_refs 0 es Map.empty,
                        classList = (\<lambda>el. li_className),
                        scrolledIntoView = [],
                        timeouts = [],
                        uncaught = [],
                        now = t \<rparr>;
          scrolled = (if isToday rendered then scrollToNow (clk t) rendered else rendered)
      in if isToday rendered then scrolled\<lparr>intervalId := Some (t + 60000)\<rparr> else scrolled)"

text \<open>
  The interval callback at the instant \<open>t\<close>: \<^verbatim>\<open>setNowFraction(computeNowFraction())\<close>.
  A state equal to the current one causes no render. Otherwise the component renders
  again and \<open>isToday\<close> is computed anew; when it has become false the effect's cleanup
  clears the interval and the effect, run again, sets none.
\<close>

definition tick :: "clock \<Rightarrow> nat \<Rightarrow> view \<Rightarrow> view" where
  "tick clk t v =
     (let fraction = computeNowFraction (clk t)
      in if fraction = nowFraction v then v\<lparr>intervalId := Some (t + 60000)\<rparr>
         else let today = (date v = isoDate (clk t))
              in v\<lparr>nowFraction := fraction, isToday := today,
                   intervalId := (if today then Some (t + 60000) else None)\<rparr>)"

text \<open>The marker that the last render put on the timeline: its \<open>top\<close>, when there is one.
  \<^verbatim>\<open>{isToday && (<div ... style={{ top: `${nowFraction * 100}%` }} />)}\<close>\<close>

definition marker :: "view \<Rightarrow> number option" where
  "marker v = (if isToday v then Some (n_mul (nowFraction v) (Num 100)) else None)"

text \<open>
  \<^verbatim>\<open>
  const handlePriorityClick = (id: string | number) => {
      const element = eventRefs.current[id];
      if (element && scrollContainerRef.current) {
          element.scrollIntoView({ behavior: 'smooth', block: 'center' });
          element.classList.add('ring-2', 'ring-indigo-500');
          setTimeout(() => {
              element.classList.remove('ring-2', 'ring-indigo-500');
          }, 2000);
      }
  };
  \<close>
\<close>

definition ring :: "string set" where
  "ring = {''ring-2'', ''ring-indigo-500''}"

text \<open>
  The object \<^verbatim>\<open>eventRefs.current\<close> is created by the literal \<^verbatim>\<open>{}\<close>
  (\<^verbatim>\<open>useRef<Record<string | number, HTMLLIElement | null>>({})\<close>), so a key that is not an
  own property is looked up in \<^verbatim>\<open>Object.prototype\<close>. The properties found there are
  functions, and for \<^verbatim>\<open>__proto__\<close> the prototype object itself: values that are truthy
  and have no method \<^verbatim>\<open>scrollIntoView\<close>.
\<close>

definition Object_prototype :: "string list" where
  "Object_prototype =
     [''constructor'', ''__defineGetter__'', ''__defineSetter__'', ''hasOwnProperty'',
      ''__lookupGetter__'', ''__lookupSetter__'', ''isPrototypeOf'', ''propertyIsEnumerable'',
      ''toString'', ''valueOf'', ''__proto__'', ''toLocaleString'']"

datatype js_value = Undefined | Element nat | Inherited

definition registry_get :: "view \<Rightarrow> string \<Rightarrow> js_value" where
  "registry_get v key =
     (case eventRefs v key of
        Some element \<Rightarrow> Element element
      | None \<Rightarrow> if key \<in> set Object_prototype then Inherited else Undefined)"

text \<open>
  The handler. With an element of the timeline it scrolls, adds the two classes and sets
  the timeout. With an inherited value, which passes the test \<^verbatim>\<open>element && ...\<close>, the call
  \<^verbatim>\<open>element.scrollIntoView(...)\<close> throws a \<^verbatim>\<open>TypeError\<close> and the handler ends there.
\<close>

definition handlePriorityClick :: "view \<Rightarrow> event_id \<Rightarrow> view" where
  "handlePriorityClick v i =
     (case registry_get v (toKey i) of
        Undefined \<Rightarrow> v
      | Element element \<Rightarrow>
          (case scrollContainerRef v of
             None \<Rightarrow> v
           | Some c \<Rightarrow>
               v\<lparr>scrolledIntoView := scrolledIntoView v @ [element],
                 classList := (classList v)(element := classList v element \<union> ring),
                 timeouts := timeouts v @ [(now v + 2000, element)]\<rparr>)
      | Inherited \<Rightarrow>
          (case scrollContainerRef v of
             None \<Rightarrow> v
           | Some c \<Rightarrow> v\<lparr>uncaught := uncaught v @ [TypeError]\<rparr>))"

text \<open>Time passing: the interval fires each time it is due up to the instant \<open>t\<close>, and the
  timeouts due up to \<open>t\<close> run, each removing the two classes from its element. The two
  kinds of callback write disjoint parts of the state: a render after a firing of the
  interval leaves the \<^verbatim>\<open>className\<close> of the blocks as it is, so the classes added by a click
  stay.\<close>

function run_interval :: "clock \<Rightarrow> nat \<Rightarrow> view \<Rightarrow> view" where
  "run_interval clk t v =
     (case intervalId v of
        None \<Rightarrow> v
      | Some due \<Rightarrow> if due \<le> t then run_interval clk t (tick clk due v) else v)"
  by pat_completeness auto
termination
  by (relation "measure (\<lambda>(clk, t, v). case intervalId v of None \<Rightarrow> 0 | Some due \<Rightarrow> Suc t - due)")
     (auto simp: tick_def Let_def)

definition run_timeouts :: "nat \<Rightarrow> view \<Rightarrow> view" where
  "run_timeouts t v =
     v\<lparr>classList := foldl (\<lambda>cl (due, element). cl(element := cl element - ring))
                        (classList v) (filter (\<lambda>(due, element). due \<le> t) (timeouts v)),
       timeouts := filter (\<lambda>(due, element). \<not> due \<le> t) (timeouts v)\<rparr>"

definition elapse :: "clock \<Rightarrow> nat \<Rightarrow> view \<Rightarrow> view" where
  "elapse clk d v = (let t = now v + d in (run_timeouts t (run_interval clk t v))\<lparr>now := t\<rparr>)"

text \<open>What happens to the mounted component: time passes, or the user clicks an entry of
  the side panel or the button \<^verbatim>\<open>Today\<close> (\<^verbatim>\<open>onClick={scrollToNow}\<close>).\<close>

datatype action = Wait nat | Click event_id | Today

fun act :: "clock \<Rightarrow> view \<Rightarrow> action \<Rightarrow> view" where
  "act clk v (Wait d) = elapse clk d v"
| "act clk v (Click i) = handlePriorityClick v i"
| "act clk v Today = scrollToNow (clk (now v)) v"

definition exec :: "clock \<Rightarrow> action list \<Rightarrow> view \<Rightarrow> view" where
  "exec clk as v = foldl (act clk) v as"

fun waited :: "action list \<Rightarrow> nat" where
  "waited [] = 0"
| "waited (Wait d # as) = d + waited as"
| "waited (a # as) = waited as"

fun clicked :: "action list \<Rightarrow> event_id list" where
  "clicked [] = []"
| "clicked (Click i # as) = i # clicked as"
| "clicked (a # as) = clicked as"

definition highlighted :: "view \<Rightarrow> nat \<Rightarrow> bool" where
  "highlighted v element = (ring \<subseteq> classList v element)"

subsection \<open>The page (src/app/daily/page.tsx)\<close>

text \<open>The three sample events of \<^verbatim>\<open>DailyPage\<close>, for the date \<open>isoDate\<close> of the day.\<close>

definition DailyPage_events :: "string \<Rightarrow> DailyEvent list" where
  "DailyPage_events d =
     [\<lparr>evt_id = IdNum 1, title = ''Breakfast'', description = Some ''Eggs and toast'',
       start = d @ ''T06:00'', evt_end = d @ ''T07:00'', color = None, priorityLevel = Level1\<rparr>,
      \<lparr>evt_id = IdNum 2, title = ''Flight to Paris'', description = Some ''Departing from JFK'',
       start = d @ ''T07:30'', evt_end = d @ ''T09:00'', color = None, priorityLevel = Level2\<rparr>,
      \<lparr>evt_id = IdNum 3, title = ''Dinner Reservation'', description = None,
       start = d @ ''T19:00'', evt_end = d @ ''T20:30'', color = None, priorityLevel = Level3\<rparr>]"

subsection \<open>Invariants of the timers\<close>

text \<open>
  Three predicates on the state, used in the proofs about the timers.
  \<^item> \<open>kept T el\<close>: the element \<open>el\<close> carries the two classes, and no pending timeout on \<open>el\<close> is
    due before \<open>T\<close> (nor can a later click set one: \<open>T\<close> is at most 2000 ahead).
  \<^item> \<open>expiring T el\<close>: before \<open>T\<close> a timeout on \<open>el\<close> due at \<open>T\<close> is pending; from \<open>T\<close> on the
    element carries neither class.
  \<^item> \<open>in_step clk t d k\<close>: the interval set at the instant \<open>t\<close> has fired \<open>k\<close> times, the day is
    still the viewed one, and the fraction is that of the last firing.
\<close>

definition kept :: "nat \<Rightarrow> nat \<Rightarrow> view \<Rightarrow> bool" where
  "kept T el v \<longleftrightarrow>
     ring \<subseteq> classList v el \<and> T \<le> now v + 2000 \<and>
     (\<forall>x \<in> set (timeouts v). snd x = el \<longrightarrow> T \<le> fst x)"

definition expiring :: "nat \<Rightarrow> nat \<Rightarrow> view \<Rightarrow> bool" where
  "expiring T el v \<longleftrightarrow>
     (now v < T \<longrightarrow> (T, el) \<in> set (timeouts v)) \<and>
     (T \<le> now v \<longrightarrow> classList v el \<inter> ring = {})"

definition in_step :: "clock \<Rightarrow> nat \<Rightarrow> string \<Rightarrow> nat \<Rightarrow> view \<Rightarrow> bool" where
  "in_step clk t d k v \<longleftrightarrow>
     intervalId v = Some (t + 60000 * (k + 1)) \<and> isToday v \<and> date v = d \<and>
     nowFraction v = computeNowFraction (clk (t + 60000 * k))"

subsection \<open>Sample hosts and a sample event\<close>

text \<open>
  A host in the time zone UTC whose clock reads 10:00 on 2022-01-22 at the instant 0 (the
  readings are meant for that day and the next), a scroll container of 800 pixels showing
  a timeline of 2688 pixels, and the page mounted on this host at the instant 0, viewing
  the day \<open>d\<close>.
\<close>

definition sample_clock :: clock where
  "sample_clock t =
     (let m = 600 + t div 60000
      in \<lparr>isoDate = (if m < 1440 then ''2022-01-22'' else ''2022-01-23''),
          localDate = (if m < 1440 then ''2022-01-22'' else ''2022-01-23''),
          nowHours = m div 60 mod 24, nowMinutes = m mod 60\<rparr>)"

text \<open>
  A host nine hours east of UTC whose clock reads 08:00 on 2022-01-23 at the instant 0, when
  it is 23:00 on 2022-01-22 in UTC (the readings are meant for the local day 2022-01-23).
\<close>

definition east_clock :: clock where
  "east_clock t =
     (let m = 480 + t div 60000
      in \<lparr>isoDate = (if m < 540 then ''2022-01-22'' else ''2022-01-23''),
          localDate = ''2022-01-23'', nowHours = m div 60 mod 24, nowMinutes = m mod 60\<rparr>)"

text \<open>An event, not one of the page, that lasts from 18:00 to the midnight that ends the day \<open>d\<close>.\<close>

definition late_event :: "string \<Rightarrow> DailyEvent" where
  "late_event d =
     \<lparr>evt_id = IdNum 4, title = ''Night train'', description = None,
      start = d @ ''T18:00'', evt_end = d @ ''T24:00'', color = None, priorityLevel = Level2\<rparr>"

definition sample_container :: container where
  "sample_container = \<lparr>scrollHeight = 2688, clientHeight = 800, scrollTop = Num 0\<rparr>"

definition sample_view :: "string \<Rightarrow> view" where
  "sample_view d = mount sample_clock 0 d (DailyPage_events d) sample_container"

subsection \<open>The time format in the words of the specification\<close>

text \<open>
  "h:mm AM/PM": the hour on the 12-hour clock without a leading zero, a colon, the
  minutes as two digits, a space, and the suffix. It is the reference that
  \<open>formatTime\<close> is compared with.
\<close>

definition clock12 :: "nat \<Rightarrow> nat \<Rightarrow> string" where
  "clock12 h m =
     nat_digits (if h mod 12 = 0 then 12 else h mod 12) @ '':'' @
     [digit_char (m div 10), digit_char (m mod 10)] @ '' '' @ (if h < 12 then ''AM'' else ''PM'')"

section \<open>Properties\<close>

subsection \<open>Numbers, digits and dates\<close>

lemma n_pct_diff:
  "n_sub (n_mul (n_div b (Num 1440)) (Num 100)) (n_mul (n_div a (Num 1440)) (Num 100))
   = n_mul (n_div (n_sub b a) (Num 1440)) (Num 100)"
  by (cases a; cases b) (simp_all add: n_sub_def n_mul_def n_div_def diff_divide_distrib left_diff_distrib)

lemma number_to_string_nat:
  "n < 9007199254740992 \<Longrightarrow> number_to_string (Num (of_nat n)) = nat_digits n"
  by (simp add: number_to_string_def int_to_string_def)

lemma n_rem_nat: "n_rem (Num (of_nat h)) (Num 12) = Num (of_nat (h mod 12))"
proof -
  have "\<lfloor>(of_nat h :: rat) / 12\<rfloor> = int (h div 12)"
    using floor_divide_of_nat_eq [of h 12, where ?'a = rat] by simp
  moreover have "(of_nat h :: rat) = 12 * of_nat (h div 12) + of_nat (h mod 12)"
    by (metis mult_div_mod_eq of_nat_add of_nat_mult of_nat_numeral)
  ultimately show ?thesis
    by (simp add: rat_trunc_def)
qed

lemma padStart2_minutes:
  "m < 100 \<Longrightarrow> padStart2 (nat_digits m) = [digit_char (m div 10), digit_char (m mod 10)]"
  by (cases "m < 10") (simp_all add: padStart2_def digit_char_def)

lemma formatTime_LocalTime:
  "h < 24 \<Longrightarrow> mi < 60 \<Longrightarrow> formatTime (LocalTime y mo d h mi sec ms) = clock12 h mi"
proof -
  assume h: "h < 24" and mi: "mi < 60"
  have a: "number_to_string (Num (of_nat (h mod 12))) = nat_digits (h mod 12)"
    by (rule number_to_string_nat) (use h in simp)
  have b: "number_to_string (Num (of_nat mi)) = nat_digits mi"
    by (rule number_to_string_nat) (use mi in simp)
  have c: "number_to_string (Num 12) = nat_digits 12"
    using number_to_string_nat [of 12] by simp
  have p: "padStart2 (nat_digits mi) = [digit_char (mi div 10), digit_char (mi mod 10)]"
    by (rule padStart2_minutes) (use mi in simp)
  show ?thesis
    using c by (auto simp add: formatTime_def clock12_def Let_def n_rem_nat a b p
        simp del: nat_digits.simps n_rem.simps)
qed

lemma newDate_range:
  assumes "newDate host s = LocalTime y mo d h mi sec ms"
  shows "h < 24 \<and> mi < 60 \<and> sec < 60 \<and> ms < 1000"
  using assms by (auto simp: newDate_def split: js_date.splits if_splits)

lemma minutes_of_valid:
  "newDate host s = LocalTime y mo d h mi sec ms \<Longrightarrow>
   getMinutesOfDay host s = Num (of_nat (h * 60 + mi))"
  by (simp add: getMinutesOfDay_def n_add_def n_mul_def)

lemma same_day_order:
  assumes a: "newDate host s = LocalTime y mo d h mi sec ms"
    and b: "newDate host s' = LocalTime y mo d h' mi' sec' ms'"
    and lt: "before (newDate host s) (newDate host s')"
  shows "h * 60 + mi \<le> h' * 60 + mi'"
proof (rule ccontr)
  assume "\<not> h * 60 + mi \<le> h' * 60 + mi'"
  then have "h' * 60 + mi' + 1 \<le> h * 60 + mi" by simp
  then have "(h' * 60 + mi' + 1) * 60000 \<le> (h * 60 + mi) * 60000"
    by (rule mult_le_mono1)
  moreover from newDate_range [OF b] have "sec' * 1000 + ms' < 60000" by simp
  ultimately show False
    using lt by (simp add: before_def a b algebra_simps)
qed

lemma on_day_cases:
  "on_day d a \<Longrightarrow>
   \<exists>y mo dd h mi sec ms. parse_date d = Some (y, mo, dd) \<and> a = LocalTime y mo dd h mi sec ms"
  by (cases a; cases "parse_date d") (auto simp: on_day_def)

lemma plain_host_samples:
  "newDate plain_host ''2022-01-22T06:00'' = LocalTime 2022 1 22 6 0 0 0"
  "newDate plain_host ''2022-01-22T07:00'' = LocalTime 2022 1 22 7 0 0 0"
  "newDate plain_host ''2022-01-22T19:00'' = LocalTime 2022 1 22 19 0 0 0"
  "newDate plain_host ''2022-01-22T20:30'' = LocalTime 2022 1 22 20 30 0 0"
  "newDate plain_host ''2022-01-22T18:00'' = LocalTime 2022 1 22 18 0 0 0"
  "newDate plain_host ''2022-01-22T24:00'' = LocalTime 2022 1 23 0 0 0 0"
  by code_simp+

subsection \<open>The layout of the timeline blocks\<close>

text \<open>
  Claim C1. On every host, the timeline has one block per event of the input list, in the
  order of the list. The block of an event has, as its top, the minutes of the day of the
  event's start divided by 1440 and multiplied by 100, and as its height, the difference
  of the minutes of the day of its end and of its start, divided by 1440 and multiplied
  by 100; both are percentages. The minutes of the day are those \<open>getMinutesOfDay\<close> reads
  from the two date-time strings; when one of them is \<open>NaN\<close>, so is the value computed
  from it. For strings that the host reads as the local times \<open>h:mi\<close> and \<open>h':mi'\<close>, the
  minutes of the day are \<open>60 h + mi\<close> and \<open>60 h' + mi'\<close>. The source computes the height as
  the difference of two percentages, which is the same number in exact arithmetic.
\<close>

theorem C1_block_layout:
  "length (timeline host es) = length es \<and>
   (\<forall>i < length es.
      style_top (timeline host es ! i) =
        n_mul (n_div (getMinutesOfDay host (start (es ! i))) (Num 1440)) (Num 100) \<and>
      style_height (timeline host es ! i) =
        n_mul (n_div (n_sub (getMinutesOfDay host (evt_end (es ! i)))
                            (getMinutesOfDay host (start (es ! i))))
                     (Num 1440)) (Num 100)) \<and>
   (\<forall>i < length es. \<forall>y mo d h mi sec ms y' mo' d' h' mi' sec' ms'.
      newDate host (start (es ! i)) = LocalTime y mo d h mi sec ms \<and>
      newDate host (evt_end (es ! i)) = LocalTime y' mo' d' h' mi' sec' ms' \<longrightarrow>
      style_top (timeline host es ! i) = Num (of_nat (h * 60 + mi) / 1440 * 100) \<and>
      style_height (timeline host es ! i)
        = Num ((of_nat (h' * 60 + mi') - of_nat (h * 60 + mi)) / 1440 * 100))"
proof -
  have general: "style_top (timeline host es ! i) =
        n_mul (n_div (getMinutesOfDay host (start (es ! i))) (Num 1440)) (Num 100) \<and>
      style_height (timeline host es ! i) =
        n_mul (n_div (n_sub (getMinutesOfDay host (evt_end (es ! i)))
                            (getMinutesOfDay host (start (es ! i))))
                     (Num 1440)) (Num 100)"
    if "i < length es" for i
    using that by (simp add: timeline_def renderEvent_def Let_def n_pct_diff)
  have parsed: "style_top (timeline host es ! i) = Num (of_nat (h * 60 + mi) / 1440 * 100) \<and>
      style_height (timeline host es ! i)
        = Num ((of_nat (h' * 60 + mi') - of_nat (h * 60 + mi)) / 1440 * 100)"
    if "i < length es" and s: "newDate host (start (es ! i)) = LocalTime y mo d h mi sec ms"
      and e: "newDate host (evt_end (es ! i)) = LocalTime y' mo' d' h' mi' sec' ms'"
    for i y mo d h mi sec ms y' mo' d' h' mi' sec' ms'
    using general [OF that(1)]
    by (simp add: minutes_of_valid [OF s] minutes_of_valid [OF e] n_mul_def n_div_def n_sub_def
        del: of_nat_add of_nat_mult)
  have "length (timeline host es) = length es"
    by (simp add: timeline_def)
  with general parsed show ?thesis by blast
qed

theorem C1_block_layout_witness:
  "0 < length (DailyPage_events ''2022-01-22'') \<and>
   style_top (timeline plain_host (DailyPage_events ''2022-01-22'') ! 0) = Num 25 \<and>
   style_height (timeline plain_host (DailyPage_events ''2022-01-22'') ! 0) = Num (25 / 6)"
proof -
  have len: "0 < length (DailyPage_events ''2022-01-22'')"
    by (simp add: DailyPage_events_def)
  have s: "getMinutesOfDay plain_host (start (DailyPage_events ''2022-01-22'' ! 0)) = Num 360"
    using minutes_of_valid [OF plain_host_samples(1)] by (simp add: DailyPage_events_def)
  have e: "getMinutesOfDay plain_host (evt_end (DailyPage_events ''2022-01-22'' ! 0)) = Num 420"
    using minutes_of_valid [OF plain_host_samples(2)] by (simp add: DailyPage_events_def)
  from C1_block_layout [of plain_host "DailyPage_events ''2022-01-22''"] len show ?thesis
    by (simp add: s e n_sub_def n_mul_def n_div_def)
qed

text \<open>
  Claim C3, as the code has it. Take an event of the list whose start and end the host
  both reads as local times of the viewed day, from 00:00 to 23:59 of that date, the
  start strictly before the end. Then the top and the height of its block are numbers,
  the height is at least 0, and top plus height lies between 0 and 100.
\<close>

theorem C3_block_within_timeline:
  assumes "i < length es"
    and "on_day d (newDate host (start (es ! i)))"
    and "on_day d (newDate host (evt_end (es ! i)))"
    and "before (newDate host (start (es ! i))) (newDate host (evt_end (es ! i)))"
  shows "\<exists>t h. style_top (timeline host es ! i) = Num t \<and>
               style_height (timeline host es ! i) = Num h \<and>
               0 \<le> h \<and> 0 \<le> t + h \<and> t + h \<le> 100"
proof -
  from on_day_cases [OF assms(2)] obtain y mo dd h mi sec ms
    where ds: "parse_date d = Some (y, mo, dd)"
      and s: "newDate host (start (es ! i)) = LocalTime y mo dd h mi sec ms"
    by blast
  from on_day_cases [OF assms(3)] ds obtain h' mi' sec' ms'
    where e: "newDate host (evt_end (es ! i)) = LocalTime y mo dd h' mi' sec' ms'"
    by auto
  have le: "h * 60 + mi \<le> h' * 60 + mi'"
    using same_day_order [OF s e assms(4)] .
  from newDate_range [OF e] have up: "h' * 60 + mi' < 1440" by simp
  let ?a = "of_nat (h * 60 + mi) :: rat" and ?b = "of_nat (h' * 60 + mi') :: rat"
  have ab: "?a \<le> ?b" using le by (simp only: of_nat_le_iff)
  have b1: "?b \<le> 1440" using up by (metis less_imp_le of_nat_le_iff of_nat_numeral)
  have a0: "0 \<le> ?a" by simp
  have top: "style_top (timeline host es ! i) = Num (?a / 1440 * 100)"
    using assms(1) by (simp add: timeline_def renderEvent_def Let_def minutes_of_valid [OF s]
        n_mul_def n_div_def del: of_nat_add of_nat_mult)
  have height: "style_height (timeline host es ! i) = Num (?b / 1440 * 100 - ?a / 1440 * 100)"
    using assms(1) by (simp add: timeline_def renderEvent_def Let_def minutes_of_valid [OF s]
        minutes_of_valid [OF e] n_mul_def n_div_def n_sub_def del: of_nat_add of_nat_mult)
  have "0 \<le> ?b / 1440 * 100 - ?a / 1440 * 100" using ab by (simp add: divide_right_mono)
  moreover have "0 \<le> ?a / 1440 * 100 + (?b / 1440 * 100 - ?a / 1440 * 100)" using a0 ab by simp
  moreover have "?a / 1440 * 100 + (?b / 1440 * 100 - ?a / 1440 * 100) \<le> 100" using b1 by simp
  ultimately show ?thesis using top height by blast
qed

theorem C3_block_within_timeline_witness:
  "2 < length (DailyPage_events ''2022-01-22'') \<and>
   on_day ''2022-01-22'' (newDate plain_host (start (DailyPage_events ''2022-01-22'' ! 2))) \<and>
   on_day ''2022-01-22'' (newDate plain_host (evt_end (DailyPage_events ''2022-01-22'' ! 2))) \<and>
   before (newDate plain_host (start (DailyPage_events ''2022-01-22'' ! 2)))
          (newDate plain_host (evt_end (DailyPage_events ''2022-01-22'' ! 2))) \<and>
   (\<exists>t h. style_top (timeline plain_host (DailyPage_events ''2022-01-22'') ! 2) = Num t \<and>
          style_height (timeline plain_host (DailyPage_events ''2022-01-22'') ! 2) = Num h \<and>
          0 \<le> h \<and> 0 \<le> t + h \<and> t + h \<le> 100)"
proof -
  have len: "2 < length (DailyPage_events ''2022-01-22'')"
    by (simp add: DailyPage_events_def)
  have pd: "parse_date ''2022-01-22'' = Some (2022, 1, 22)"
    by code_simp
  have ns: "newDate plain_host (start (DailyPage_events ''2022-01-22'' ! 2))
            = LocalTime 2022 1 22 19 0 0 0"
    using plain_host_samples(3) by (simp add: DailyPage_events_def)
  have ne: "newDate plain_host (evt_end (DailyPage_events ''2022-01-22'' ! 2))
            = LocalTime 2022 1 22 20 30 0 0"
    using plain_host_samples(4) by (simp add: DailyPage_events_def)
  have s: "on_day ''2022-01-22'' (newDate plain_host (start (DailyPage_events ''2022-01-22'' ! 2)))"
    by (simp add: ns pd on_day_def)
  have e: "on_day ''2022-01-22'' (newDate plain_host (evt_end (DailyPage_events ''2022-01-22'' ! 2)))"
    by (simp add: ne pd on_day_def)
  have lt: "before (newDate plain_host (start (DailyPage_events ''2022-01-22'' ! 2)))
                   (newDate plain_host (evt_end (DailyPage_events ''2022-01-22'' ! 2)))"
    by (simp add: ns ne before_def)
  show ?thesis
    by (intro conjI len s e lt C3_block_within_timeline [OF len s e lt])
qed

text \<open>
  Claim C3, as it is stated, fails for an event that ends at the midnight that ends the
  viewed day. The event \<open>late_event\<close> is written on the viewed day, from 18:00 to 24:00, and
  its start is before its end. The host reads the end as 00:00 of the next day, whose
  minutes of the day are 0: the block has top 75 and height -75.
\<close>

theorem C3_counterexample:
  "take 10 (start (late_event ''2022-01-22'')) = ''2022-01-22'' \<and>
   take 10 (evt_end (late_event ''2022-01-22'')) = ''2022-01-22'' \<and>
   newDate plain_host (start (late_event ''2022-01-22'')) = LocalTime 2022 1 22 18 0 0 0 \<and>
   newDate plain_host (evt_end (late_event ''2022-01-22'')) = LocalTime 2022 1 23 0 0 0 0 \<and>
   before (newDate plain_host (start (late_event ''2022-01-22'')))
          (newDate plain_host (evt_end (late_event ''2022-01-22''))) \<and>
   style_top (timeline plain_host [late_event ''2022-01-22''] ! 0) = Num 75 \<and>
   style_height (timeline plain_host [late_event ''2022-01-22''] ! 0) = Num (- 75)"
proof -
  have ns: "newDate plain_host (start (late_event ''2022-01-22'')) = LocalTime 2022 1 22 18 0 0 0"
    using plain_host_samples(5) by (simp add: late_event_def)
  have ne: "newDate plain_host (evt_end (late_event ''2022-01-22'')) = LocalTime 2022 1 23 0 0 0 0"
    using plain_host_samples(6) by (simp add: late_event_def)
  have w: "take 10 (start (late_event ''2022-01-22'')) = ''2022-01-22''"
    "take 10 (evt_end (late_event ''2022-01-22'')) = ''2022-01-22''"
    by (simp_all add: late_event_def)
  have lt: "before (newDate plain_host (start (late_event ''2022-01-22'')))
                   (newDate plain_host (evt_end (late_event ''2022-01-22'')))"
    by (simp add: ns ne before_def)
  have top: "style_top (timeline plain_host [late_event ''2022-01-22''] ! 0) = Num 75"
    by (simp add: timeline_def renderEvent_def Let_def minutes_of_valid [OF ns]
        n_mul_def n_div_def)
  have height: "style_height (timeline plain_host [late_event ''2022-01-22''] ! 0) = Num (- 75)"
    by (simp add: timeline_def renderEvent_def Let_def minutes_of_valid [OF ns]
        minutes_of_valid [OF ne] n_mul_def n_div_def n_sub_def)
  show ?thesis
    by (intro conjI w ns ne lt top height)
qed

subsection \<open>The grouping by priority\<close>

lemma push_evt_bucket:
  "bucket (push_evt pm evt) p = bucket pm p @ (if priorityLevel evt = p then [evt] else [])"
  by (cases p; cases "priorityLevel evt") (simp_all add: push_evt_def)

lemma foldl_push_bucket:
  "bucket (foldl push_evt pm es) p = bucket pm p @ filter (\<lambda>e. priorityLevel e = p) es"
  by (induction es arbitrary: pm) (simp_all add: push_evt_bucket)

lemma priorityMap_bucket:
  "bucket (priorityMap es) p = filter (\<lambda>e. priorityLevel e = p) es"
  using foldl_push_bucket [of "\<lparr>bucket1 = [], bucket2 = [], bucket3 = []\<rparr>" es p]
  by (cases p) (simp_all add: priorityMap_def)

lemma mset_by_level:
  "mset (filter (\<lambda>e. priorityLevel e = Level1) es) + mset (filter (\<lambda>e. priorityLevel e = Level2) es)
   + mset (filter (\<lambda>e. priorityLevel e = Level3) es) = mset (es :: DailyEvent list)"
proof (induction es)
  case Nil show ?case by simp
next
  case (Cons e es)
  then show ?case by (cases "priorityLevel e") simp_all
qed

text \<open>
  Claim C2. For every input list, the bucket of a priority level holds the events of
  that level, in the order of the input list (it is the input list filtered by the
  level). Hence the three buckets together hold each occurrence of an event of the input
  exactly once, no two buckets share an event, and each bucket is a subsequence of the
  input list: it holds no event that is not in the input and keeps the input's order.
\<close>

theorem C2_grouping:
  "bucket1 (priorityMap es) = filter (\<lambda>e. priorityLevel e = Level1) es \<and>
   bucket2 (priorityMap es) = filter (\<lambda>e. priorityLevel e = Level2) es \<and>
   bucket3 (priorityMap es) = filter (\<lambda>e. priorityLevel e = Level3) es \<and>
   mset (bucket1 (priorityMap es)) + mset (bucket2 (priorityMap es)) + mset (bucket3 (priorityMap es))
     = mset es \<and>
   set (bucket1 (priorityMap es)) \<inter> set (bucket2 (priorityMap es)) = {} \<and>
   set (bucket1 (priorityMap es)) \<inter> set (bucket3 (priorityMap es)) = {} \<and>
   set (bucket2 (priorityMap es)) \<inter> set (bucket3 (priorityMap es)) = {} \<and>
   subseq (bucket1 (priorityMap es)) es \<and>
   subseq (bucket2 (priorityMap es)) es \<and>
   subseq (bucket3 (priorityMap es)) es"
proof -
  have b1: "bucket1 (priorityMap es) = filter (\<lambda>e. priorityLevel e = Level1) es"
    using priorityMap_bucket [of es Level1] by simp
  have b2: "bucket2 (priorityMap es) = filter (\<lambda>e. priorityLevel e = Level2) es"
    using priorityMap_bucket [of es Level2] by simp
  have b3: "bucket3 (priorityMap es) = filter (\<lambda>e. priorityLevel e = Level3) es"
    using priorityMap_bucket [of es Level3] by simp
  show ?thesis
    unfolding b1 b2 b3 by (auto simp: mset_by_level simp del: mset_filter)
qed

subsection \<open>The labels\<close>

text \<open>
  Claim C6. \<open>formatHourLabel\<close> gives, for each hour from 0 to 23, the hour on the 12-hour
  clock followed by AM or PM, midnight and noon being written 12. In particular the
  labels of 0, 12 and 13 are 12AM, 12PM and 1PM.
\<close>

theorem C6_formatHourLabel:
  "formatHourLabel (Num 0) = ''12AM'' \<and> formatHourLabel (Num 12) = ''12PM'' \<and>
   formatHourLabel (Num 13) = ''1PM'' \<and>
   map (\<lambda>h. formatHourLabel (Num (of_nat h))) [0..<24] =
     [''12AM'', ''1AM'', ''2AM'', ''3AM'', ''4AM'', ''5AM'', ''6AM'', ''7AM'', ''8AM'', ''9AM'',
      ''10AM'', ''11AM'', ''12PM'', ''1PM'', ''2PM'', ''3PM'', ''4PM'', ''5PM'', ''6PM'', ''7PM'',
      ''8PM'', ''9PM'', ''10PM'', ''11PM'']"
  by code_simp

text \<open>
  Claim C7. For a start and an end that the host reads as local times, \<open>formatTimeRange\<close> is
  the start in the format "h:mm AM/PM" (\<open>clock12\<close>), then space, hyphen, space, then the end
  in the same format. In particular the range from 2022-01-22T06:00 to 2022-01-22T07:00
  is written "6:00 AM - 7:00 AM": on the host \<open>plain_host\<close>, and on every host that reads the
  two strings as the times written.
\<close>

theorem C7_formatTimeRange:
  "formatTimeRange plain_host ''2022-01-22T06:00'' ''2022-01-22T07:00'' = ''6:00 AM - 7:00 AM'' \<and>
   (newDate host ''2022-01-22T06:00'' = LocalTime 2022 1 22 6 0 0 0 \<and>
    newDate host ''2022-01-22T07:00'' = LocalTime 2022 1 22 7 0 0 0 \<longrightarrow>
      formatTimeRange host ''2022-01-22T06:00'' ''2022-01-22T07:00'' = ''6:00 AM - 7:00 AM'') \<and>
   (\<forall>y mo d h mi sec ms y' mo' d' h' mi' sec' ms'.
      newDate host startIso = LocalTime y mo d h mi sec ms \<and>
      newDate host endIso = LocalTime y' mo' d' h' mi' sec' ms' \<longrightarrow>
      formatTimeRange host startIso endIso = clock12 h mi @ '' - '' @ clock12 h' mi')"
proof -
  have general: "formatTimeRange g a b = clock12 h mi @ '' - '' @ clock12 h' mi'"
    if "newDate g a = LocalTime y mo d h mi sec ms"
      and "newDate g b = LocalTime y' mo' d' h' mi' sec' ms'"
    for g a b y mo d h mi sec ms y' mo' d' h' mi' sec' ms'
    using that newDate_range [OF that(1)] newDate_range [OF that(2)]
    by (simp add: formatTimeRange_def Let_def formatTime_LocalTime)
  have c: "clock12 6 0 @ '' - '' @ clock12 7 0 = ''6:00 AM - 7:00 AM''"
    by code_simp
  have written: "formatTimeRange g ''2022-01-22T06:00'' ''2022-01-22T07:00'' = ''6:00 AM - 7:00 AM''"
    if "newDate g ''2022-01-22T06:00'' = LocalTime 2022 1 22 6 0 0 0"
      and "newDate g ''2022-01-22T07:00'' = LocalTime 2022 1 22 7 0 0 0" for g
    using general [OF that] c by simp
  have "formatTimeRange plain_host ''2022-01-22T06:00'' ''2022-01-22T07:00'' = ''6:00 AM - 7:00 AM''"
    by (rule written [OF plain_host_samples(1) plain_host_samples(2)])
  with written general show ?thesis by blast
qed

theorem C7_formatTimeRange_witness:
  "newDate plain_host ''2022-01-22T06:00'' = LocalTime 2022 1 22 6 0 0 0 \<and>
   newDate plain_host ''2022-01-22T07:00'' = LocalTime 2022 1 22 7 0 0 0 \<and>
   formatTimeRange plain_host ''2022-01-22T06:00'' ''2022-01-22T07:00'' = ''6:00 AM - 7:00 AM'' \<and>
   newDate plain_host ''2022-01-22T12:05:30'' = LocalTime 2022 1 22 12 5 30 0 \<and>
   newDate plain_host ''2022-01-22T23:59'' = LocalTime 2022 1 22 23 59 0 0 \<and>
   formatTimeRange plain_host ''2022-01-22T12:05:30'' ''2022-01-22T23:59'' = ''12:05 PM - 11:59 PM''"
proof -
  have a: "newDate plain_host ''2022-01-22T12:05:30'' = LocalTime 2022 1 22 12 5 30 0"
    by code_simp
  have b: "newDate plain_host ''2022-01-22T23:59'' = LocalTime 2022 1 22 23 59 0 0"
    by code_simp
  have c: "clock12 12 5 @ '' - '' @ clock12 23 59 = ''12:05 PM - 11:59 PM''"
    by code_simp
  note main = C7_formatTimeRange [of plain_host "''2022-01-22T12:05:30''" "''2022-01-22T23:59''"]
  have x: "formatTimeRange plain_host ''2022-01-22T06:00'' ''2022-01-22T07:00'' = ''6:00 AM - 7:00 AM''"
    by (rule main [THEN conjunct2, THEN conjunct1, THEN mp,
          OF conjI [OF plain_host_samples(1) plain_host_samples(2)]])
  have "formatTimeRange plain_host ''2022-01-22T12:05:30'' ''2022-01-22T23:59''
        = clock12 12 5 @ '' - '' @ clock12 23 59"
    by (rule main [THEN conjunct2, THEN conjunct2, rule_format, OF conjI [OF a b]])
  then have y: "formatTimeRange plain_host ''2022-01-22T12:05:30'' ''2022-01-22T23:59''
        = ''12:05 PM - 11:59 PM''"
    by (simp only: c)
  show ?thesis
    by (intro conjI plain_host_samples(1) plain_host_samples(2) x a b y)
qed

subsection \<open>The state of the mounted component\<close>

declare run_interval.simps [simp del]

lemma tick_frame:
  "date (tick clk t v) = date v \<and> events (tick clk t v) = events v \<and>
   scrollContainerRef (tick clk t v) = scrollContainerRef v \<and>
   eventRefs (tick clk t v) = eventRefs v \<and> classList (tick clk t v) = classList v \<and>
   scrolledIntoView (tick clk t v) = scrolledIntoView v \<and> timeouts (tick clk t v) = timeouts v \<and>
   uncaught (tick clk t v) = uncaught v \<and> now (tick clk t v) = now v"
  by (simp add: tick_def Let_def)

lemma run_interval_frame:
  "date (run_interval clk t v) = date v \<and> events (run_interval clk t v) = events v \<and>
   scrollContainerRef (run_interval clk t v) = scrollContainerRef v \<and>
   eventRefs (run_interval clk t v) = eventRefs v \<and>
   classList (run_interval clk t v) = classList v \<and>
   scrolledIntoView (run_interval clk t v) = scrolledIntoView v \<and>
   timeouts (run_interval clk t v) = timeouts v \<and>
   uncaught (run_interval clk t v) = uncaught v \<and> now (run_interval clk t v) = now v"
proof (induction clk t v rule: run_interval.induct)
  case (1 clk t v)
  show ?case
  proof (cases "intervalId v")
    case None
    then show ?thesis by (simp add: run_interval.simps [of clk t v])
  next
    case (Some due)
    show ?thesis
    proof (cases "due \<le> t")
      case True
      with Some 1 tick_frame [of clk due v] show ?thesis
        by (simp add: run_interval.simps [of clk t v])
    next
      case False
      with Some show ?thesis by (simp add: run_interval.simps [of clk t v])
    qed
  qed
qed

lemma run_interval_idle: "intervalId v = None \<Longrightarrow> run_interval clk t v = v"
  by (simp add: run_interval.simps [of clk t v])

lemma elapse_refs:
  "eventRefs (elapse clk w v) = eventRefs v \<and> scrollContainerRef (elapse clk w v) = scrollContainerRef v"
  by (simp add: elapse_def Let_def run_timeouts_def run_interval_frame)

lemma act_eventRefs: "eventRefs (act clk v a) = eventRefs v"
  by (cases a)
     (simp_all add: elapse_refs handlePriorityClick_def registry_get_def scrollToNow_def Let_def
        split: option.splits js_value.splits)

lemma exec_eventRefs: "eventRefs (exec clk as v) = eventRefs v"
  unfolding exec_def by (induction as arbitrary: v) (simp_all add: act_eventRefs)


lemma mount_eventRefs: "eventRefs (mount clk t d es c) = attach_refs 0 es Map.empty"
  by (simp add: mount_def Let_def scrollToNow_def)

lemma not_today_act:
  "\<not> isToday v \<and> intervalId v = None \<Longrightarrow> \<not> isToday (act clk v a) \<and> intervalId (act clk v a) = None"
  by (cases a)
     (simp_all add: elapse_def Let_def run_timeouts_def run_interval_idle handlePriorityClick_def registry_get_def
        scrollToNow_def split: option.splits js_value.splits)

lemma not_today_exec:
  "\<not> isToday v \<and> intervalId v = None \<Longrightarrow>
   \<not> isToday (exec clk as v) \<and> intervalId (exec clk as v) = None"
  unfolding exec_def
proof (induction as arbitrary: v)
  case Nil
  then show ?case by simp
next
  case (Cons a as)
  from Cons.IH [OF not_today_act [OF Cons.prems]] show ?case by simp
qed

lemma mount_not_today:
  "d \<noteq> isoDate (clk t) \<Longrightarrow> \<not> isToday (mount clk t d es c) \<and> intervalId (mount clk t d es c) = None"
  by (simp add: mount_def Let_def)

lemma exec_snoc: "exec clk (as @ [a]) v = act clk (exec clk as v) a"
  by (simp add: exec_def)

lemma mount_now: "now (mount clk t d es c) = t"
  by (simp add: mount_def Let_def scrollToNow_def)

lemma handlePriorityClick_hit:
  "eventRefs v (toKey i) = Some el \<Longrightarrow> scrollContainerRef v = Some c \<Longrightarrow>
   handlePriorityClick v i =
     v\<lparr>scrolledIntoView := scrolledIntoView v @ [el],
       classList := (classList v)(el := classList v el \<union> ring),
       timeouts := timeouts v @ [(now v + 2000, el)]\<rparr>"
  by (simp add: handlePriorityClick_def registry_get_def)

lemma click_on_absent_key:
  "eventRefs v (toKey i) = None \<Longrightarrow> toKey i \<notin> set Object_prototype \<Longrightarrow> handlePriorityClick v i = v"
  by (simp add: handlePriorityClick_def registry_get_def)

lemma scrollToNow_position:
  "isToday v \<Longrightarrow> scrollContainerRef v = Some c \<Longrightarrow>
   scrollContainerRef (scrollToNow r v) =
     Some (c\<lparr>scrollTop :=
              Num (max 0 (min (of_nat (nowHours r * 60 + nowMinutes r) / 1440
                                 * of_int (scrollHeight c - clientHeight c))
                              (of_int (scrollHeight c - clientHeight c))))\<rparr>)"
  by (simp add: scrollToNow_def Let_def)

lemma mount_fresh:
  "timeouts (mount clk t d es c) = [] \<and> classList (mount clk t d es c) = (\<lambda>el. li_className) \<and>
   scrollContainerRef (mount clk t d es c) \<noteq> None"
  by (simp add: mount_def Let_def scrollToNow_def)

lemma page_keys:
  "toKey (IdNum 1) = ''1''" "toKey (IdNum 2) = ''2''" "toKey (IdNum 3) = ''3''"
  by (simp_all add: number_to_string_def int_to_string_def digit_char_def)

lemma sample_refs: "eventRefs (sample_view d) (toKey (IdNum 1)) = Some 0"
  by (simp add: sample_view_def mount_eventRefs DailyPage_events_def page_keys del: toKey.simps)

lemma sample_today: "isToday (sample_view ''2022-01-22'')"
  by (simp add: sample_view_def mount_def Let_def scrollToNow_def sample_clock_def)

lemma sample_position:
  "max 0 (min (of_nat (nowHours (sample_clock 0) * 60 + nowMinutes (sample_clock 0)) / 1440
                 * of_int (scrollHeight c - clientHeight c))
              (of_int (scrollHeight c - clientHeight c)))
   = (if scrollHeight c < clientHeight c then 0 else 5 / 12 * of_int (scrollHeight c - clientHeight c) :: rat)"
  by (simp add: sample_clock_def max_def min_def)

subsection \<open>Clicks on the side panel\<close>


lemma fire_classes:
  "foldl (\<lambda>cl (due, e). cl(e := cl e - ring)) cl ts el
   = (if el \<in> snd ` set ts then cl el - ring else cl el)"
proof (induction ts arbitrary: cl)
  case Nil
  show ?case by simp
next
  case (Cons x ts)
  obtain due e where x: "x = (due, e)" by (cases x)
  show ?case
  proof (cases "e = el")
    case True
    with x Cons [of "cl(e := cl e - ring)"] show ?thesis by auto
  next
    case False
    with x Cons [of "cl(e := cl e - ring)"] show ?thesis by auto
  qed
qed

lemma elapse_now: "now (elapse clk w v) = now v + w"
  by (simp add: elapse_def Let_def)

lemma elapse_timeouts:
  "timeouts (elapse clk w v) = filter (\<lambda>(due, e). \<not> due \<le> now v + w) (timeouts v)"
  by (simp add: elapse_def Let_def run_timeouts_def run_interval_frame)

lemma elapse_classList:
  "classList (elapse clk w v) el
   = (if el \<in> snd ` set (filter (\<lambda>(due, e). due \<le> now v + w) (timeouts v))
      then classList v el - ring else classList v el)"
  by (simp add: elapse_def Let_def run_timeouts_def run_interval_frame fire_classes)

lemma kept_act:
  assumes "kept T el v" and "now (act clk v a) < T"
  shows "kept T el (act clk v a)"
proof (cases a)
  case (Wait w)
  with assms(2) have lt: "now v + w < T" by (simp add: elapse_now)
  have "el \<notin> snd ` set (filter (\<lambda>(due, e). due \<le> now v + w) (timeouts v))"
    using assms(1) lt by (auto simp: kept_def)
  with assms(1) lt Wait show ?thesis
    by (auto simp: kept_def elapse_now elapse_timeouts elapse_classList)
next
  case (Click j)
  with assms(1) show ?thesis
    by (auto simp: kept_def handlePriorityClick_def registry_get_def split: option.splits)
next
  case Today
  with assms(1) show ?thesis
    by (auto simp: kept_def scrollToNow_def Let_def split: option.splits)
qed

lemma act_now: "now (act clk v a) = now v + waited [a]"
  by (cases a) (simp_all add: elapse_now handlePriorityClick_def registry_get_def scrollToNow_def Let_def split: option.splits)

lemma waited_Cons: "waited (a # as) = waited [a] + waited as"
  by (cases a) simp_all

lemma exec_now: "now (exec clk as v) = now v + waited as"
  unfolding exec_def
proof (induction as arbitrary: v)
  case Nil
  show ?case by simp
next
  case (Cons a as)
  show ?case using Cons.IH [of "act clk v a"] waited_Cons [of a as]
    by (simp add: act_now)
qed

lemma kept_exec:
  assumes "kept T el v" and "now v + waited as < T"
  shows "kept T el (exec clk as v)"
  using assms unfolding exec_def
proof (induction as arbitrary: v)
  case Nil
  then show ?case by simp
next
  case (Cons a as)
  have n: "now (act clk v a) + waited as = now v + waited (a # as)"
    using waited_Cons [of a as] by (simp add: act_now)
  with Cons.prems(2) have "now (act clk v a) < T" by simp
  from kept_act [OF Cons.prems(1) this] have "kept T el (act clk v a)" .
  from Cons.IH [OF this] n Cons.prems(2) show ?case by simp
qed

lemma expiring_act:
  assumes "expiring T el v" and "\<forall>j \<in> set (clicked [a]). eventRefs v (toKey j) \<noteq> Some el"
  shows "expiring T el (act clk v a)"
proof (cases a)
  case (Wait w)
  show ?thesis
  proof (cases "T \<le> now v + w")
    case True
    have "classList (elapse clk w v) el \<inter> ring = {}"
    proof (cases "now v < T")
      case True
      with assms(1) have "(T, el) \<in> set (timeouts v)" by (simp add: expiring_def)
      with \<open>T \<le> now v + w\<close>
      have "el \<in> snd ` set (filter (\<lambda>(due, e). due \<le> now v + w) (timeouts v))"
        by force
      then show ?thesis by (auto simp: elapse_classList)
    next
      case False
      with assms(1) have "classList v el \<inter> ring = {}" by (simp add: expiring_def)
      then show ?thesis by (auto simp: elapse_classList)
    qed
    with True assms(1) Wait show ?thesis
      by (auto simp: expiring_def elapse_now elapse_timeouts)
  next
    case False
    with assms(1) Wait show ?thesis
      by (auto simp: expiring_def elapse_now elapse_timeouts)
  qed
next
  case (Click j)
  with assms show ?thesis
    by (auto simp: expiring_def handlePriorityClick_def registry_get_def split: option.splits)
next
  case Today
  with assms(1) show ?thesis
    by (auto simp: expiring_def scrollToNow_def Let_def split: option.splits)
qed

lemma clicked_Cons: "clicked (a # as) = clicked [a] @ clicked as"
  by (cases a) simp_all

lemma expiring_exec:
  assumes "expiring T el v" and "\<forall>j \<in> set (clicked as). eventRefs v (toKey j) \<noteq> Some el"
  shows "expiring T el (exec clk as v)"
  using assms unfolding exec_def
proof (induction as arbitrary: v)
  case Nil
  then show ?case by simp
next
  case (Cons a as)
  from Cons.prems(2) clicked_Cons [of a as]
  have one: "\<forall>j \<in> set (clicked [a]). eventRefs v (toKey j) \<noteq> Some el"
    and rest: "\<forall>j \<in> set (clicked as). eventRefs (act clk v a) (toKey j) \<noteq> Some el"
    by (auto simp: act_eventRefs)
  from Cons.IH [OF expiring_act [OF Cons.prems(1) one] rest] show ?case by simp
qed

text \<open>
  Claim C5, as the code has it. A click on an entry whose identifier has a timeline block
  \<open>el\<close> in the registry highlights that block at once. When no timeout of an earlier
  click on the same block is pending, the block stays highlighted as long as less than
  2000 milliseconds have passed since the click, whatever is clicked meanwhile. And once
  2000 milliseconds or more have passed, the block carries neither of the two classes,
  provided that no entry of the same block was clicked again since; clicks on the
  entries of other blocks change nothing to that.
\<close>

theorem C5_highlight:
  assumes "eventRefs v (toKey i) = Some el" and "scrollContainerRef v = Some c"
  shows "highlighted (handlePriorityClick v i) el \<and>
         ((\<forall>x \<in> set (timeouts v). snd x \<noteq> el) \<longrightarrow>
            (\<forall>as. waited as < 2000 \<longrightarrow> highlighted (exec clk as (handlePriorityClick v i)) el)) \<and>
         (\<forall>as. 2000 \<le> waited as \<and> (\<forall>j \<in> set (clicked as). eventRefs v (toKey j) \<noteq> Some el) \<longrightarrow>
            classList (exec clk as (handlePriorityClick v i)) el \<inter> ring = {})"
proof -
  let ?v = "handlePriorityClick v i" and ?T = "now v + 2000"
  have hl: "highlighted ?v el"
    using assms by (simp add: handlePriorityClick_def registry_get_def highlighted_def)
  have nw: "now ?v = now v" and refs: "eventRefs ?v = eventRefs v"
    using assms by (simp_all add: handlePriorityClick_def registry_get_def)
  have stays: "highlighted (exec clk as ?v) el"
    if "\<forall>x \<in> set (timeouts v). snd x \<noteq> el" and "waited as < 2000" for as
  proof -
    have "kept ?T el ?v"
      using assms that(1) by (auto simp: kept_def handlePriorityClick_def registry_get_def)
    from kept_exec [OF this, of as clk] that(2) nw show ?thesis
      by (simp add: kept_def highlighted_def)
  qed
  have goes: "classList (exec clk as ?v) el \<inter> ring = {}"
    if "2000 \<le> waited as" and "\<forall>j \<in> set (clicked as). eventRefs v (toKey j) \<noteq> Some el" for as
  proof -
    have "expiring ?T el ?v"
      using assms by (auto simp: expiring_def handlePriorityClick_def registry_get_def)
    from expiring_exec [OF this, of as clk] that(2) refs
    have "expiring ?T el (exec clk as ?v)" by simp
    moreover have "?T \<le> now (exec clk as ?v)"
      using that(1) nw by (simp add: exec_now)
    ultimately show ?thesis by (simp add: expiring_def)
  qed
  from hl stays goes show ?thesis by blast
qed

theorem C5_highlight_witness:
  "eventRefs (sample_view ''2022-01-22'') (toKey (IdNum 1)) = Some 0 \<and>
   scrollContainerRef (sample_view ''2022-01-22'') \<noteq> None \<and>
   highlighted (handlePriorityClick (sample_view ''2022-01-22'') (IdNum 1)) 0 \<and>
   highlighted (exec sample_clock [Wait 1000, Click (IdNum 2), Click (IdNum 1), Wait 999]
                  (handlePriorityClick (sample_view ''2022-01-22'') (IdNum 1))) 0 \<and>
   classList (exec sample_clock [Wait 1000, Click (IdNum 2), Wait 1000]
                (handlePriorityClick (sample_view ''2022-01-22'') (IdNum 1))) 0 \<inter> ring = {}"
proof -
  let ?v0 = "sample_view ''2022-01-22''"
  have r: "eventRefs ?v0 (toKey (IdNum 1)) = Some 0" by (rule sample_refs)
  obtain c where c0: "scrollContainerRef ?v0 = Some c"
    using mount_fresh [of sample_clock 0 "''2022-01-22''" "DailyPage_events ''2022-01-22''" sample_container]
    by (auto simp: sample_view_def)
  have t0: "\<forall>x \<in> set (timeouts ?v0). snd x \<noteq> 0"
    by (simp add: sample_view_def mount_fresh)
  have r2: "eventRefs ?v0 (toKey (IdNum 2)) \<noteq> Some 0"
    by (simp add: sample_view_def mount_eventRefs DailyPage_events_def page_keys del: toKey.simps)
  note main = C5_highlight [OF r c0, of sample_clock]
  have a: "highlighted (handlePriorityClick ?v0 (IdNum 1)) 0"
    using main by blast
  have "waited [Wait 1000, Click (IdNum 2), Click (IdNum 1), Wait 999] < 2000" by simp
  with main t0
  have b: "highlighted (exec sample_clock [Wait 1000, Click (IdNum 2), Click (IdNum 1), Wait 999]
                          (handlePriorityClick ?v0 (IdNum 1))) 0"
    by blast
  have "2000 \<le> waited [Wait 1000, Click (IdNum 2), Wait 1000] \<and>
        (\<forall>j \<in> set (clicked [Wait 1000, Click (IdNum 2), Wait 1000]). eventRefs ?v0 (toKey j) \<noteq> Some 0)"
    using r2 by simp
  with main
  have d: "classList (exec sample_clock [Wait 1000, Click (IdNum 2), Wait 1000]
                        (handlePriorityClick ?v0 (IdNum 1))) 0 \<inter> ring = {}"
    by blast
  from r c0 a b d show ?thesis by simp
qed

text \<open>
  Claim C5, as it is stated, fails for a second click on the same entry. On the sample
  page the entry of event 1 is clicked at the instant 0 and again at 1000. The block is
  highlighted after the second click, and 1000 milliseconds later the timeout of the
  first click has removed the highlight: one second after the second click, not two.
\<close>

theorem C5_counterexample:
  "highlighted (handlePriorityClick
                  (exec sample_clock [Click (IdNum 1), Wait 1000] (sample_view ''2022-01-22''))
                  (IdNum 1)) 0 \<and>
   \<not> highlighted (exec sample_clock [Wait 1000]
                    (handlePriorityClick
                       (exec sample_clock [Click (IdNum 1), Wait 1000] (sample_view ''2022-01-22''))
                       (IdNum 1))) 0"
proof -
  let ?v0 = "sample_view ''2022-01-22''"
  let ?s1 = "handlePriorityClick ?v0 (IdNum 1)"
  let ?s2 = "elapse sample_clock 1000 ?s1"
  let ?s3 = "handlePriorityClick ?s2 (IdNum 1)"
  let ?s4 = "elapse sample_clock 1000 ?s3"
  obtain c where c0: "scrollContainerRef ?v0 = Some c"
    using mount_fresh [of sample_clock 0 "''2022-01-22''" "DailyPage_events ''2022-01-22''" sample_container]
    by (auto simp: sample_view_def)
  have n0: "now ?v0 = 0" and t0: "timeouts ?v0 = []"
    by (simp_all add: sample_view_def mount_now mount_fresh)
  have s1: "?s1 = ?v0\<lparr>scrolledIntoView := scrolledIntoView ?v0 @ [0],
                       classList := (classList ?v0)(0 := classList ?v0 0 \<union> ring),
                       timeouts := timeouts ?v0 @ [(now ?v0 + 2000, 0)]\<rparr>"
    by (rule handlePriorityClick_hit [OF sample_refs c0])
  have n2: "now ?s2 = 1000" and t2: "timeouts ?s2 = [(2000, 0)]"
    and r2: "eventRefs ?s2 (toKey (IdNum 1)) = Some 0" and c2: "scrollContainerRef ?s2 = Some c"
    and cl2: "ring \<subseteq> classList ?s2 0"
    using sample_refs [of "''2022-01-22''"]
    by (simp_all add: elapse_now elapse_timeouts elapse_refs elapse_classList s1 n0 t0 c0)
  have s3: "?s3 = ?s2\<lparr>scrolledIntoView := scrolledIntoView ?s2 @ [0],
                       classList := (classList ?s2)(0 := classList ?s2 0 \<union> ring),
                       timeouts := timeouts ?s2 @ [(now ?s2 + 2000, 0)]\<rparr>"
    by (rule handlePriorityClick_hit [OF r2 c2])
  have h3: "highlighted ?s3 0"
    by (simp add: s3 highlighted_def)
  have "classList ?s4 0 = classList ?s3 0 - ring"
    by (simp add: elapse_classList s3 n2 t2)
  then have h4: "\<not> highlighted ?s4 0"
    by (auto simp: highlighted_def ring_def)
  from h3 h4 show ?thesis by (simp add: exec_def)
qed

subsection \<open>The current-time marker\<close>

lemma tick_in_step:
  assumes "in_step clk t d k v" and "d = isoDate (clk (t + 60000 * (k + 1)))"
  shows "in_step clk t d (k + 1) (tick clk (t + 60000 * (k + 1)) v)"
  using assms by (auto simp: in_step_def tick_def Let_def)

lemma run_interval_in_step:
  assumes "in_step clk t d k v"
    and "t + 60000 * (k + n) \<le> T" and "T < t + 60000 * (k + n + 1)"
    and "\<forall>j. k < j \<and> j \<le> k + n \<longrightarrow> d = isoDate (clk (t + 60000 * j))"
  shows "in_step clk t d (k + n) (run_interval clk T v)"
  using assms
proof (induction n arbitrary: k v)
  case 0
  then have "intervalId v = Some (t + 60000 * (k + 1))" and "\<not> t + 60000 * (k + 1) \<le> T"
    by (simp_all add: in_step_def)
  then have "run_interval clk T v = v"
    by (simp add: run_interval.simps [of clk T v])
  with 0 show ?case by simp
next
  case (Suc n)
  have due: "intervalId v = Some (t + 60000 * (k + 1))" and le: "t + 60000 * (k + 1) \<le> T"
    using Suc.prems by (simp_all add: in_step_def)
  then have unfold: "run_interval clk T v = run_interval clk T (tick clk (t + 60000 * (k + 1)) v)"
    by (simp add: run_interval.simps [of clk T v])
  have "d = isoDate (clk (t + 60000 * (k + 1)))"
  proof -
    have "k < k + 1 \<and> k + 1 \<le> k + Suc n" by simp
    with Suc.prems(4) show ?thesis by blast
  qed
  from tick_in_step [OF Suc.prems(1) this]
  have step: "in_step clk t d (k + 1) (tick clk (t + 60000 * (k + 1)) v)" .
  have "in_step clk t d (k + 1 + n) (run_interval clk T (tick clk (t + 60000 * (k + 1)) v))"
  proof (rule Suc.IH [OF step])
    show "t + 60000 * (k + 1 + n) \<le> T" using Suc.prems(2) by simp
    show "T < t + 60000 * (k + 1 + n + 1)" using Suc.prems(3) by simp
    show "\<forall>j. k + 1 < j \<and> j \<le> k + 1 + n \<longrightarrow> d = isoDate (clk (t + 60000 * j))"
      using Suc.prems(4) by simp
  qed
  with unfold show ?case by (simp add: add.commute add.left_commute)
qed

lemma elapse_interval:
  "intervalId (elapse clk w v) = intervalId (run_interval clk (now v + w) v) \<and>
   isToday (elapse clk w v) = isToday (run_interval clk (now v + w) v) \<and>
   date (elapse clk w v) = date (run_interval clk (now v + w) v) \<and>
   nowFraction (elapse clk w v) = nowFraction (run_interval clk (now v + w) v)"
  by (simp add: elapse_def Let_def run_timeouts_def)

lemma act_in_step:
  assumes "in_step clk t d ((now v - t) div 60000) v" and "t \<le> now v"
    and "\<forall>j \<le> (now (act clk v a) - t) div 60000. d = isoDate (clk (t + 60000 * j))"
  shows "in_step clk t d ((now (act clk v a) - t) div 60000) (act clk v a)"
proof (cases a)
  case (Wait w)
  let ?k = "(now v - t) div 60000" and ?k' = "(now v + w - t) div 60000"
  have "?k \<le> ?k'" by (rule div_le_mono) simp
  then obtain n where n: "?k' = ?k + n" using le_Suc_ex by blast
  have lo: "t + 60000 * ?k' \<le> now v + w" using assms(2)
    by (metis div_mult_mod_eq le_add1 le_add_diff_inverse mult.commute trans_le_add1 add_le_cancel_left)
  have hi: "now v + w < t + 60000 * (?k' + 1)"
  proof -
    have "now v + w - t < 60000 * (?k' + 1)"
      using dividend_less_times_div [of 60000 "now v + w - t"] by simp
    then show ?thesis using assms(2) by linarith
  qed
  have "in_step clk t d (?k + n) (run_interval clk (now v + w) v)"
  proof (rule run_interval_in_step [OF assms(1)])
    show "t + 60000 * (?k + n) \<le> now v + w" using lo n by simp
    show "now v + w < t + 60000 * (?k + n + 1)" using hi n by simp
    show "\<forall>j. ?k < j \<and> j \<le> ?k + n \<longrightarrow> d = isoDate (clk (t + 60000 * j))"
      using assms(3) Wait n by (simp add: elapse_now)
  qed
  with n Wait show ?thesis
    by (simp add: in_step_def elapse_interval elapse_now)
next
  case (Click j)
  with assms(1) show ?thesis
    by (auto simp: in_step_def handlePriorityClick_def registry_get_def split: option.splits)
next
  case Today
  with assms(1) show ?thesis
    by (auto simp: in_step_def scrollToNow_def Let_def split: option.splits)
qed

lemma exec_in_step:
  assumes "in_step clk t d ((now v - t) div 60000) v" and "t \<le> now v"
    and "\<forall>j \<le> (now v + waited as - t) div 60000. d = isoDate (clk (t + 60000 * j))"
  shows "in_step clk t d ((now v + waited as - t) div 60000) (exec clk as v)"
  using assms unfolding exec_def
proof (induction as arbitrary: v)
  case Nil
  then show ?case by simp
next
  case (Cons a as)
  let ?v = "act clk v a"
  have n: "now ?v + waited as = now v + waited (a # as)"
    using waited_Cons [of a as] by (simp add: act_now)
  have ge: "t \<le> now ?v" using Cons.prems(2) by (simp add: act_now)
  have "(now ?v - t) div 60000 \<le> (now v + waited (a # as) - t) div 60000"
    by (rule div_le_mono) (use n in linarith)
  with Cons.prems(3)
  have "\<forall>j \<le> (now ?v - t) div 60000. d = isoDate (clk (t + 60000 * j))"
    by (meson order_trans)
  from act_in_step [OF Cons.prems(1,2) this]
  have "in_step clk t d ((now ?v - t) div 60000) ?v" .
  from Cons.IH [OF this ge] Cons.prems(3) n show ?case by simp
qed

lemma mount_in_step:
  "d = isoDate (clk t) \<Longrightarrow> in_step clk t d 0 (mount clk t d es c)"
  by (simp add: in_step_def mount_def Let_def scrollToNow_def)

lemma marker_by_iso_date:
  "((\<forall>j \<le> waited as div 60000. d = isoDate (clk (t + 60000 * j))) \<longrightarrow>
      marker (exec clk as (mount clk t d es c)) =
        Some (Num (of_nat (nowHours (clk (t + 60000 * (waited as div 60000))) * 60
                           + nowMinutes (clk (t + 60000 * (waited as div 60000)))) / 1440 * 100))) \<and>
   (d \<noteq> isoDate (clk t) \<longrightarrow> marker (exec clk as (mount clk t d es c)) = None)"
proof -
  let ?v = "mount clk t d es c" and ?k = "waited as div 60000"
  have yes: "marker (exec clk as ?v) =
        Some (Num (of_nat (nowHours (clk (t + 60000 * ?k)) * 60 + nowMinutes (clk (t + 60000 * ?k)))
                   / 1440 * 100))"
    if h: "\<forall>j \<le> ?k. d = isoDate (clk (t + 60000 * j))"
  proof -
    from h have "d = isoDate (clk t)" by (metis le0 mult_0_right add_0_right)
    then have "in_step clk t d ((now ?v - t) div 60000) ?v"
      using mount_in_step [of d clk t es c] by (simp add: mount_now)
    from exec_in_step [OF this, of as] h
    have "in_step clk t d ?k (exec clk as ?v)" by (simp add: mount_now)
    then show ?thesis
      by (simp add: in_step_def marker_def computeNowFraction_def n_div_def n_mul_def Let_def)
  qed
  have no: "marker (exec clk as ?v) = None" if "d \<noteq> isoDate (clk t)"
  proof -
    from that have "\<not> isToday ?v \<and> intervalId ?v = None" by (rule mount_not_today)
    then have "\<not> isToday (exec clk as ?v)" using not_today_exec by blast
    then show ?thesis by (simp add: marker_def)
  qed
  from yes no show ?thesis by blast
qed

text \<open>
  Claim C4, as the code has it. Let the view be mounted at the instant \<open>t\<close> and let anything
  happen afterwards, the waits adding up to \<open>w\<close> milliseconds; the host is one whose date
  in UTC is its local date at the instants in question. If the viewed date is the real
  current date at the mount and at each firing of the interval so far (the instants
  \<open>t + 60000 j\<close> up to \<open>t + w\<close>), then the marker is rendered, and its top is the percentage
  of the day given by the minutes of the day read at the last of these instants: it is
  recomputed every 60 seconds. If the viewed date is not the real current date at the
  mount, no marker is rendered, however much time passes.
\<close>

theorem C4_marker:
  "((\<forall>j \<le> waited as div 60000.
        d = localDate (clk (t + 60000 * j)) \<and>
        isoDate (clk (t + 60000 * j)) = localDate (clk (t + 60000 * j))) \<longrightarrow>
      marker (exec clk as (mount clk t d es c)) =
        Some (Num (of_nat (nowHours (clk (t + 60000 * (waited as div 60000))) * 60
                           + nowMinutes (clk (t + 60000 * (waited as div 60000)))) / 1440 * 100))) \<and>
   (d \<noteq> localDate (clk t) \<and> isoDate (clk t) = localDate (clk t) \<longrightarrow>
      marker (exec clk as (mount clk t d es c)) = None)"
proof -
  note iso = marker_by_iso_date [of as d clk t es c]
  have yes: "marker (exec clk as (mount clk t d es c)) =
        Some (Num (of_nat (nowHours (clk (t + 60000 * (waited as div 60000))) * 60
                           + nowMinutes (clk (t + 60000 * (waited as div 60000)))) / 1440 * 100))"
    if "\<forall>j \<le> waited as div 60000.
          d = localDate (clk (t + 60000 * j)) \<and>
          isoDate (clk (t + 60000 * j)) = localDate (clk (t + 60000 * j))"
  proof -
    from that have "\<forall>j \<le> waited as div 60000. d = isoDate (clk (t + 60000 * j))"
      by simp
    with iso show ?thesis by (rule conjunct1 [THEN mp])
  qed
  have no: "marker (exec clk as (mount clk t d es c)) = None"
    if "d \<noteq> localDate (clk t) \<and> isoDate (clk t) = localDate (clk t)"
  proof -
    from that have "d \<noteq> isoDate (clk t)" by simp
    with iso show ?thesis by (rule conjunct2 [THEN mp])
  qed
  from yes no show ?thesis by blast
qed

theorem C4_marker_witness:
  "''2022-01-22'' = localDate (sample_clock 0) \<and> isoDate (sample_clock 0) = localDate (sample_clock 0) \<and>
   ''2022-01-22'' = localDate (sample_clock 60000) \<and>
   isoDate (sample_clock 60000) = localDate (sample_clock 60000) \<and>
   marker (exec sample_clock [Wait 30000, Click (IdNum 1), Wait 40000]
             (mount sample_clock 0 ''2022-01-22'' (DailyPage_events ''2022-01-22'') sample_container))
     = Some (Num (3005 / 72)) \<and>
   ''2022-01-23'' \<noteq> localDate (sample_clock 0) \<and>
   marker (exec sample_clock [Wait 30000, Click (IdNum 1), Wait 40000]
             (mount sample_clock 0 ''2022-01-23'' (DailyPage_events ''2022-01-23'') sample_container))
     = None"
proof -
  have w: "waited [Wait 30000, Click (IdNum 1), Wait 40000] div 60000 = 1" by simp
  have d0: "''2022-01-22'' = localDate (sample_clock 0)"
    and i0: "isoDate (sample_clock 0) = localDate (sample_clock 0)"
    and d1: "''2022-01-22'' = localDate (sample_clock 60000)"
    and i1: "isoDate (sample_clock 60000) = localDate (sample_clock 60000)"
    by (simp_all add: sample_clock_def Let_def)
  have h: "\<forall>j \<le> waited [Wait 30000, Click (IdNum 1), Wait 40000] div 60000.
             ''2022-01-22'' = localDate (sample_clock (0 + 60000 * j)) \<and>
             isoDate (sample_clock (0 + 60000 * j)) = localDate (sample_clock (0 + 60000 * j))"
    unfolding w by (simp add: sample_clock_def Let_def)
  have n: "''2022-01-23'' \<noteq> localDate (sample_clock 0)"
    by (simp add: sample_clock_def Let_def)
  have r: "Num (of_nat (nowHours (sample_clock (0 + 60000 * 1)) * 60
                        + nowMinutes (sample_clock (0 + 60000 * 1))) / 1440 * 100)
           = Num (3005 / 72)"
    by (simp add: sample_clock_def Let_def)
  from C4_marker [of "[Wait 30000, Click (IdNum 1), Wait 40000]" "''2022-01-22''" sample_clock 0
      "DailyPage_events ''2022-01-22''" sample_container] h
  have a: "marker (exec sample_clock [Wait 30000, Click (IdNum 1), Wait 40000]
             (mount sample_clock 0 ''2022-01-22'' (DailyPage_events ''2022-01-22'') sample_container))
     = Some (Num (3005 / 72))"
    unfolding w r by (rule conjunct1 [THEN mp])
  from C4_marker [of "[Wait 30000, Click (IdNum 1), Wait 40000]" "''2022-01-23''" sample_clock 0
      "DailyPage_events ''2022-01-23''" sample_container] conjI [OF n i0]
  have b: "marker (exec sample_clock [Wait 30000, Click (IdNum 1), Wait 40000]
             (mount sample_clock 0 ''2022-01-23'' (DailyPage_events ''2022-01-23'') sample_container))
     = None"
    by (rule conjunct2 [THEN mp])
  show ?thesis by (intro conjI d0 i0 d1 i1 a n b)
qed

text \<open>
  Claim C4, as it is stated, fails in two ways. First, whether it is today is decided when
  the component renders. On the host in UTC a view of 2022-01-23 is mounted thirty
  seconds before that day begins; a minute later the viewed date is the real current
  date, and there is no marker (nor will there be one: no interval was set). Second, the
  date compared with is the date in UTC. On the host nine hours east of UTC, at 08:00 of
  2022-01-23, the view of that day has no marker, and the view of 2022-01-22, which is not
  the real current date, has one.
\<close>

theorem C4_counterexample:
  "localDate (sample_clock (50370000 + 60000)) = ''2022-01-23'' \<and>
   now (exec sample_clock [Wait 60000]
          (mount sample_clock 50370000 ''2022-01-23'' (DailyPage_events ''2022-01-23'') sample_container))
     = 50370000 + 60000 \<and>
   marker (exec sample_clock [Wait 60000]
             (mount sample_clock 50370000 ''2022-01-23'' (DailyPage_events ''2022-01-23'') sample_container))
     = None \<and>
   localDate (east_clock 0) = ''2022-01-23'' \<and>
   marker (mount east_clock 0 ''2022-01-23'' (DailyPage_events ''2022-01-23'') sample_container) = None \<and>
   marker (mount east_clock 0 ''2022-01-22'' (DailyPage_events ''2022-01-22'') sample_container)
     = Some (Num (100 / 3))"
proof -
  let ?m = "mount sample_clock 50370000 ''2022-01-23'' (DailyPage_events ''2022-01-23'') sample_container"
  have l: "localDate (sample_clock (50370000 + 60000)) = ''2022-01-23''"
    by (simp add: sample_clock_def Let_def)
  have n: "now (exec sample_clock [Wait 60000] ?m) = 50370000 + 60000"
    by (simp add: exec_now mount_now)
  have "''2022-01-23'' \<noteq> isoDate (sample_clock 50370000)"
    by (simp add: sample_clock_def Let_def)
  then have "\<not> isToday ?m \<and> intervalId ?m = None"
    by (rule mount_not_today)
  then have "\<not> isToday (exec sample_clock [Wait 60000] ?m)"
    using not_today_exec by blast
  then have a: "marker (exec sample_clock [Wait 60000] ?m) = None"
    by (simp add: marker_def)
  have e: "localDate (east_clock 0) = ''2022-01-23''"
    by (simp add: east_clock_def Let_def)
  have b: "marker (mount east_clock 0 ''2022-01-23'' (DailyPage_events ''2022-01-23'') sample_container)
           = None"
    by (simp add: marker_def mount_def Let_def east_clock_def)
  have c: "marker (mount east_clock 0 ''2022-01-22'' (DailyPage_events ''2022-01-22'') sample_container)
           = Some (Num (100 / 3))"
    by (simp add: marker_def mount_def Let_def east_clock_def scrollToNow_def
        computeNowFraction_def n_div_def n_mul_def)
  show ?thesis by (intro conjI l n a e b c)
qed

subsection \<open>Scrolling to the current time\<close>

text \<open>
  Claim C9, as the code has it. Mounting a view of the current date sets the scroll
  position of the container to the minutes of the day divided by 1440 and multiplied by
  the scrollable height (\<open>scrollHeight - clientHeight\<close>, the \<open>maxScroll\<close> of the source), clamped
  between 0 and \<open>maxScroll\<close>. The button \<^verbatim>\<open>Today\<close> sets the position to the same expression,
  read at the instant of the click, when the view was rendered as a view of the current
  date.
\<close>

theorem C9_scroll_to_now:
  "(d = isoDate (clk t) \<longrightarrow>
      scrollContainerRef (mount clk t d es c) =
        Some (c\<lparr>scrollTop :=
                 Num (max 0 (min (of_nat (nowHours (clk t) * 60 + nowMinutes (clk t)) / 1440
                                    * of_int (scrollHeight c - clientHeight c))
                                 (of_int (scrollHeight c - clientHeight c))))\<rparr>)) \<and>
   (isToday v \<and> scrollContainerRef v = Some c \<longrightarrow>
      scrollContainerRef (act clk v Today) =
        Some (c\<lparr>scrollTop :=
                 Num (max 0 (min (of_nat (nowHours (clk (now v)) * 60 + nowMinutes (clk (now v))) / 1440
                                    * of_int (scrollHeight c - clientHeight c))
                                 (of_int (scrollHeight c - clientHeight c))))\<rparr>))"
  by (simp add: mount_def scrollToNow_def Let_def)

theorem C9_scroll_to_now_witness:
  "''2022-01-22'' = isoDate (sample_clock 0) \<and>
   scrollContainerRef (mount sample_clock 0 ''2022-01-22'' (DailyPage_events ''2022-01-22'') sample_container)
     = Some (sample_container\<lparr>scrollTop := Num (2360 / 3)\<rparr>) \<and>
   isToday (sample_view ''2022-01-22'') \<and>
   scrollContainerRef (sample_view ''2022-01-22'') = Some (sample_container\<lparr>scrollTop := Num (2360 / 3)\<rparr>) \<and>
   scrollContainerRef (act sample_clock (sample_view ''2022-01-22'') Today)
     = Some (sample_container\<lparr>scrollTop := Num (2360 / 3)\<rparr>)"
proof -
  let ?v = "sample_view ''2022-01-22''" and ?c = "sample_container\<lparr>scrollTop := Num (2360 / 3)\<rparr>"
  have d: "''2022-01-22'' = isoDate (sample_clock 0)"
    by (simp add: sample_clock_def)
  have p: "5 / 12 * of_int (scrollHeight sample_container - clientHeight sample_container) = (2360 / 3 :: rat)"
    by (simp add: sample_container_def)
  have q: "\<not> scrollHeight sample_container < clientHeight sample_container"
    and q': "scrollHeight ?c = scrollHeight sample_container"
      "clientHeight ?c = clientHeight sample_container"
    by (simp_all add: sample_container_def)
  have m: "scrollContainerRef (mount sample_clock 0 ''2022-01-22'' (DailyPage_events ''2022-01-22'') sample_container)
     = Some ?c"
    using C9_scroll_to_now [of "''2022-01-22''" sample_clock 0 "DailyPage_events ''2022-01-22''"
        sample_container, THEN conjunct1, THEN mp, OF d]
    unfolding sample_position by (simp only: q p if_False)
  have t: "isToday ?v" by (rule sample_today)
  have c: "scrollContainerRef ?v = Some ?c"
    unfolding sample_view_def by (rule m)
  have n: "now ?v = 0"
    by (simp add: sample_view_def mount_now)
  have u: "?c\<lparr>scrollTop := Num (2360 / 3)\<rparr> = ?c" by simp
  have b: "scrollContainerRef (act sample_clock ?v Today) = Some ?c"
    using C9_scroll_to_now [where clk = sample_clock and v = ?v and c = ?c,
        THEN conjunct2, THEN mp, OF conjI [OF t c]]
    unfolding n sample_position q' by (simp only: q p if_False u)
  show ?thesis by (intro conjI d m t c b)
qed

text \<open>
  Claim C9, as it is stated, fails for the button on a view of another day: on the sample
  host, which reads 10:00, the view of the next day is at scroll position 0 after the
  button is pressed, not at the position computed for 10:00.
\<close>

theorem C9_counterexample:
  "scrollContainerRef (act sample_clock (sample_view ''2022-01-23'') Today) = Some sample_container \<and>
   sample_container \<noteq>
     sample_container\<lparr>scrollTop :=
       Num (max 0 (min (of_nat (nowHours (sample_clock (now (sample_view ''2022-01-23''))) * 60
                                + nowMinutes (sample_clock (now (sample_view ''2022-01-23'')))) / 1440
                          * of_int (scrollHeight sample_container - clientHeight sample_container))
                       (of_int (scrollHeight sample_container - clientHeight sample_container))))\<rparr>"
  by (simp add: sample_view_def mount_def scrollToNow_def Let_def sample_clock_def sample_container_def)

text \<open>
  Claim C10, as the code has it. On a view that was last rendered as a view of another day
  than the current one (its \<open>isToday\<close> is false), \<open>scrollToNow\<close> returns the state unchanged.
  On a host whose date in UTC is its local date at the mount, a view mounted for a date
  other than the real current date is and stays such a view, so pressing \<^verbatim>\<open>Today\<close> at any
  later point changes nothing, the scroll position included.
\<close>

theorem C10_today_button_other_day:
  "(\<not> isToday v \<longrightarrow> scrollToNow r v = v) \<and>
   (d \<noteq> localDate (clk t) \<and> isoDate (clk t) = localDate (clk t) \<longrightarrow>
      exec clk (as @ [Today]) (mount clk t d es c) = exec clk as (mount clk t d es c))"
proof -
  have a: "scrollToNow r v = v" if "\<not> isToday v" for r v
    using that by (simp add: scrollToNow_def split: option.splits)
  have "exec clk (as @ [Today]) (mount clk t d es c) = exec clk as (mount clk t d es c)"
    if "d \<noteq> localDate (clk t) \<and> isoDate (clk t) = localDate (clk t)"
  proof -
    from that have "d \<noteq> isoDate (clk t)" by simp
    then have "\<not> isToday (mount clk t d es c) \<and> intervalId (mount clk t d es c) = None"
      by (rule mount_not_today)
    then have "\<not> isToday (exec clk as (mount clk t d es c))"
      using not_today_exec by blast
    then show ?thesis by (simp add: exec_snoc a)
  qed
  with a show ?thesis by blast
qed

theorem C10_today_button_other_day_witness:
  "\<not> isToday (sample_view ''2022-01-23'') \<and>
   scrollToNow (sample_clock 1000) (sample_view ''2022-01-23'') = sample_view ''2022-01-23'' \<and>
   ''2022-01-23'' \<noteq> localDate (sample_clock 0) \<and>
   isoDate (sample_clock 0) = localDate (sample_clock 0) \<and>
   exec sample_clock ([Wait 90000, Click (IdNum 2)] @ [Today])
     (mount sample_clock 0 ''2022-01-23'' (DailyPage_events ''2022-01-23'') sample_container)
   = exec sample_clock [Wait 90000, Click (IdNum 2)]
       (mount sample_clock 0 ''2022-01-23'' (DailyPage_events ''2022-01-23'') sample_container)"
proof -
  have n: "''2022-01-23'' \<noteq> localDate (sample_clock 0)"
    and i: "isoDate (sample_clock 0) = localDate (sample_clock 0)"
    by (simp_all add: sample_clock_def Let_def)
  have t: "\<not> isToday (sample_view ''2022-01-23'')"
    by (simp add: sample_view_def mount_def Let_def sample_clock_def)
  note a = C10_today_button_other_day [of "sample_view ''2022-01-23''" "sample_clock 1000"
      "''2022-01-23''" sample_clock 0 "[Wait 90000, Click (IdNum 2)]" "DailyPage_events ''2022-01-23''"
      sample_container]
  from a t have x: "scrollToNow (sample_clock 1000) (sample_view ''2022-01-23'') = sample_view ''2022-01-23''"
    by (rule conjunct1 [THEN mp])
  from a conjI [OF n i] have y: "exec sample_clock ([Wait 90000, Click (IdNum 2)] @ [Today])
     (mount sample_clock 0 ''2022-01-23'' (DailyPage_events ''2022-01-23'') sample_container)
   = exec sample_clock [Wait 90000, Click (IdNum 2)]
       (mount sample_clock 0 ''2022-01-23'' (DailyPage_events ''2022-01-23'') sample_container)"
    by (rule conjunct2 [THEN mp])
  show ?thesis by (intro conjI t x n i y)
qed

text \<open>
  Claim C10, as it is stated, fails once the date has changed since the last render. On the
  host in UTC a view of 2022-01-22 is mounted at 23:59:30 of that day, and scrolls to the
  position of 23:59. Forty seconds later, at 00:00:10 of 2022-01-23 and before the interval
  fires, the viewed date is not the real current date; the button \<^verbatim>\<open>Today\<close> still scrolls,
  to the position of 00:00.
\<close>

theorem C10_counterexample:
  "date (exec sample_clock [Wait 40000]
           (mount sample_clock 50370000 ''2022-01-22'' (DailyPage_events ''2022-01-22'') sample_container))
     = ''2022-01-22'' \<and>
   localDate (sample_clock (now (exec sample_clock [Wait 40000]
           (mount sample_clock 50370000 ''2022-01-22'' (DailyPage_events ''2022-01-22'') sample_container))))
     = ''2022-01-23'' \<and>
   scrollContainerRef (exec sample_clock [Wait 40000]
           (mount sample_clock 50370000 ''2022-01-22'' (DailyPage_events ''2022-01-22'') sample_container))
     = Some (sample_container\<lparr>scrollTop := Num (84901 / 45)\<rparr>) \<and>
   scrollContainerRef (act sample_clock (exec sample_clock [Wait 40000]
           (mount sample_clock 50370000 ''2022-01-22'' (DailyPage_events ''2022-01-22'') sample_container))
         Today)
     = Some (sample_container\<lparr>scrollTop := Num 0\<rparr>)"
proof -
  let ?m = "mount sample_clock 50370000 ''2022-01-22'' (DailyPage_events ''2022-01-22'') sample_container"
  let ?v = "exec sample_clock [Wait 40000] ?m"
  let ?c = "sample_container\<lparr>scrollTop := Num (84901 / 45)\<rparr>"
  have n: "now ?v = 50410000"
    by (simp add: exec_now mount_now)
  have today: "''2022-01-22'' = isoDate (sample_clock 50370000)"
    by (simp add: sample_clock_def Let_def)
  have step: "in_step sample_clock 50370000 ''2022-01-22'' ((now ?m + waited [Wait 40000] - 50370000) div 60000) ?v"
  proof (rule exec_in_step)
    show "in_step sample_clock 50370000 ''2022-01-22'' ((now ?m - 50370000) div 60000) ?m"
      using mount_in_step [of "''2022-01-22''" sample_clock 50370000
          "DailyPage_events ''2022-01-22''" sample_container] today
      by (simp add: mount_now)
    show "50370000 \<le> now ?m" by (simp add: mount_now)
    show "\<forall>j \<le> (now ?m + waited [Wait 40000] - 50370000) div 60000.
            ''2022-01-22'' = isoDate (sample_clock (50370000 + 60000 * j))"
      using today by (simp add: mount_now)
  qed
  then have t: "isToday ?v" and d: "date ?v = ''2022-01-22''"
    by (simp_all add: in_step_def)
  have l: "localDate (sample_clock (now ?v)) = ''2022-01-23''"
    unfolding n by (simp add: sample_clock_def Let_def)
  have "scrollContainerRef ?m = Some ?c"
    by (simp add: mount_def Let_def scrollToNow_def sample_clock_def sample_container_def)
  then have c: "scrollContainerRef ?v = Some ?c"
    by (simp add: exec_def elapse_refs)
  have p: "max 0 (min (of_nat (nowHours (sample_clock 50410000) * 60
                               + nowMinutes (sample_clock 50410000)) / 1440
                         * of_int (scrollHeight ?c - clientHeight ?c))
                      (of_int (scrollHeight ?c - clientHeight ?c))) = (0 :: rat)"
    by (simp add: sample_clock_def Let_def sample_container_def)
  have u: "?c\<lparr>scrollTop := Num 0\<rparr> = sample_container\<lparr>scrollTop := Num 0\<rparr>" by simp
  have b: "scrollContainerRef (act sample_clock ?v Today) = Some (sample_container\<lparr>scrollTop := Num 0\<rparr>)"
    using scrollToNow_position [OF t c, of "sample_clock (now ?v)"]
    unfolding n p by (simp only: act.simps n u)
  show ?thesis by (intro conjI d l c b)
qed

end
